theory Spec2Isabelle
  imports Complex_Main "HOL-Library.Multiset" "HOL-Library.Sublist"
begin

section \<open>Expense reconciliation: the matching engine of \<open>ExpenseReconciler\<close>\<close>

text \<open>
  The development embeds \<open>ExpenseReconciler\<close> of \<open>streamlit_app_english.py\<close>:
  the card-number resolver \<open>get_person_name\<close>, the scorer
  \<open>_calculate_match_quality\<close>, the matcher \<open>find_matches\<close> and the classification
  made by \<open>generate_report_df\<close>.

  Modelling decisions.
  \<^item> A dataframe is the list of its rows in iteration order; a row carries its index
    label \<open>idx\<close>.
  \<^item> A date is a calendar day number (\<open>int\<close>); \<open>(a - b).days\<close> is the difference
    of the day numbers.
  \<^item> A Python \<open>float\<close> is a finite binary64 number, held as the rational it denotes.
    Every arithmetic operation of the source is the exact operation followed by
    rounding to the nearest binary64 number, ties to even (\<open>fl\<close>); a decimal literal
    of the source such as \<open>0.2\<close> is \<open>fl 0.2\<close>. Amounts and tolerances are finite,
    and the loaders keep positive amounts only, so no operation of the matcher leaves
    the binary64 range.
  \<^item> A string is the list of the bytes of its UTF-8 encoding, so that equality and
    containment of strings are equality and containment of byte lists. The Unicode
    tables behind \<open>str.lower\<close> and \<open>str.strip\<close> are not part of the repository: the
    two methods are parameters of the model (\<open>str_ops\<close>), and every general theorem
    holds for all of them. The examples are ASCII strings, on which the two methods
    are \<open>ascii_ops\<close>.
  \<^item> Python's \<open>ZeroDivisionError\<close> and \<open>OverflowError\<close> are values of the result
    type.
\<close>

subsection \<open>Data\<close>

datatype py_error = ZeroDivisionError | OverflowError

record reconciler =
  tolerance_amount :: rat
  tolerance_days :: int
  check_person :: bool

record txn =
  idx :: nat
  date :: int
  amount :: rat
  description :: string
  person :: string
  card_no :: string

record match_row =
  cap_idx :: nat
  job_idx :: nat
  cap_date :: int
  job_date :: int
  cap_amount :: rat
  job_amount :: rat
  cap_desc :: string
  job_desc :: string
  cap_person :: string
  job_person :: string
  cap_card_no :: string
  date_diff :: int
  amount_diff :: rat
  person_match :: bool
  person_match_quality :: rat
  match_quality :: rat

datatype report_row =
  MATCH match_row
  | MISSING_IN_JOBBER txn
  | MISSING_IN_CAPITALONE txn

subsection \<open>Strings: \<open>lower\<close>, \<open>strip\<close>, \<open>in\<close>, \<open>str\<close>\<close>

text \<open>The two string methods that the matcher calls.\<close>

record str_ops =
  str_lower :: "string \<Rightarrow> string"
  str_strip :: "string \<Rightarrow> string"

text \<open>
  On ASCII strings \<open>str.lower\<close> maps the letters A to Z to a to z, and \<open>str.strip\<close>
  removes the leading and trailing characters among space, tab, line feed, vertical
  tab, form feed, carriage return and the four separators 0x1C to 0x1F.
\<close>

definition lower_char :: "char \<Rightarrow> char" where
  "lower_char c =
     (case map_of (zip ''ABCDEFGHIJKLMNOPQRSTUVWXYZ'' ''abcdefghijklmnopqrstuvwxyz'') c of
        Some l \<Rightarrow> l
      | None \<Rightarrow> c)"

definition ascii_lower :: "string \<Rightarrow> string" where
  "ascii_lower s = map lower_char s"

definition ascii_space :: "char \<Rightarrow> bool" where
  "ascii_space c \<longleftrightarrow>
     c \<in> set [CHR '' '', CHR 0x09, CHR 0x0A, CHR 0x0B, CHR 0x0C, CHR 0x0D,
               CHR 0x1C, CHR 0x1D, CHR 0x1E, CHR 0x1F]"

definition ascii_strip :: "string \<Rightarrow> string" where
  "ascii_strip s = rev (dropWhile ascii_space (rev (dropWhile ascii_space s)))"

definition ascii_ops :: str_ops where
  "ascii_ops = \<lparr>str_lower = ascii_lower, str_strip = ascii_strip\<rparr>"

fun starts_with :: "string \<Rightarrow> string \<Rightarrow> bool" where
  "starts_with [] hay = True"
| "starts_with (n # ns) [] = False"
| "starts_with (n # ns) (h # hs) = (n = h \<and> starts_with ns hs)"

text \<open>\<open>py_in needle hay\<close> is Python's \<open>needle in hay\<close> on strings.\<close>

fun py_in :: "string \<Rightarrow> string \<Rightarrow> bool" where
  "py_in needle [] = (needle = [])"
| "py_in needle (h # hs) = (starts_with needle (h # hs) \<or> py_in needle hs)"

text \<open>\<open>str\<close> of an integer: its decimal digits, after a minus sign when negative.\<close>

definition digit_char :: "int \<Rightarrow> char" where
  "digit_char d = ''0123456789'' ! nat d"

function str_nat :: "int \<Rightarrow> string" where
  "str_nat n = (if n < 10 then [digit_char n] else str_nat (n div 10) @ [digit_char (n mod 10)])"
  by pat_completeness auto
termination
  by (relation "measure nat") auto

declare str_nat.simps [simp del]

definition str_int :: "int \<Rightarrow> string" where
  "str_int i = (if i < 0 then CHR ''-'' # str_nat (- i) else str_nat i)"

subsection \<open>Binary64 arithmetic\<close>

text \<open>\<open>bit_length n\<close> is the number of binary digits of a positive integer.\<close>

function bit_length :: "int \<Rightarrow> int" where
  "bit_length n = (if n \<le> 0 then 0 else 1 + bit_length (n div 2))"
  by pat_completeness auto
termination
  by (relation "measure nat") auto

declare bit_length.simps [simp del]

definition pow2 :: "int \<Rightarrow> rat" where
  "pow2 k = (if 0 \<le> k then of_int (2 ^ nat k) else 1 / of_int (2 ^ nat (- k)))"

text \<open>
  For a positive rational \<open>p / q\<close> (with \<open>p\<close> and \<open>q\<close> positive), \<open>ilog2_frac p q\<close>
  is the exponent \<open>e\<close> with \<open>2 ^ e \<le> p / q < 2 ^ (e + 1)\<close>.
\<close>

definition ilog2_frac :: "int \<Rightarrow> int \<Rightarrow> int" where
  "ilog2_frac p q = (if q \<le> p then bit_length (p div q) - 1
                     else - bit_length ((q - 1) div p))"

definition ilog2 :: "rat \<Rightarrow> int" where
  "ilog2 x = (case quotient_of x of (p, q) \<Rightarrow> ilog2_frac p q)"

text \<open>The integer nearest to \<open>num / den\<close> (\<open>den\<close> positive), ties to the even one.\<close>

definition round_half_even :: "int \<Rightarrow> int \<Rightarrow> int" where
  "round_half_even num den =
     (let f = num div den; r2 = 2 * (num mod den)
      in if r2 < den then f else if den < r2 then f + 1 else if even f then f else f + 1)"

text \<open>
  Rounding to binary64: 53 significant bits, the spacing of the subnormal numbers
  below \<open>2 ^ -1022\<close>, nearest with ties to even. With \<open>k\<close> the exponent of the last
  kept bit, the result is the multiple of \<open>2 ^ k\<close> nearest to \<open>x\<close>. A result of
  magnitude \<open>2 ^ 1024\<close> or more is outside the range (\<open>overflows\<close>).
\<close>

definition fl :: "rat \<Rightarrow> rat" where
  "fl x = (if x = 0 then 0
           else (case quotient_of x of (p, q) \<Rightarrow>
                   (let k = max (ilog2_frac \<bar>p\<bar> q) (- 1022) - 52;
                        n = (if k < 0 then round_half_even (p * 2 ^ nat (- k)) q
                             else round_half_even p (q * 2 ^ nat k))
                    in of_int n * pow2 k)))"

definition overflows :: "rat \<Rightarrow> bool" where
  "overflows r \<longleftrightarrow> r \<noteq> 0 \<and> 1024 \<le> ilog2 \<bar>r\<bar>"

definition fadd :: "rat \<Rightarrow> rat \<Rightarrow> rat" where
  "fadd a b = fl (a + b)"

definition fsub :: "rat \<Rightarrow> rat \<Rightarrow> rat" where
  "fsub a b = fl (a - b)"

definition fmul :: "rat \<Rightarrow> rat \<Rightarrow> rat" where
  "fmul a b = fl (a * b)"

subsection \<open>The identity resolver \<open>get_person_name\<close>\<close>

text \<open>
  A cell of the card column, as \<open>Series.apply\<close> hands it to the resolver: missing
  (\<open>pd.isna\<close>), a Python integer, a finite float, an infinite float or a string.
\<close>

datatype card_token = Missing | IntTok int | FloatTok rat | InfTok | StrTok string

definition card_to_person :: "(string \<times> string) list" where
  "card_to_person =
     [(''9265'', ''Aaron Davidson''),
      (''4298'', ''Alex Masuda''),
      (''1725'', ''Jericho Taylor-Daves''),
      (''3253'', ''Jerry Morales''),
      (''2984'', ''Antonio'')]"

text \<open>\<open>int(x)\<close> of a finite float: truncation towards zero.\<close>

definition py_trunc :: "rat \<Rightarrow> int" where
  "py_trunc q = (if 0 \<le> q then \<lfloor>q\<rfloor> else \<lceil>q\<rceil>)"

text \<open>
  \<open>float(n)\<close> of an integer: the nearest binary64 number, \<open>OverflowError\<close> when it is
  outside the range.
\<close>

definition float_of_int :: "int \<Rightarrow> py_error + rat" where
  "float_of_int n = (if overflows (fl (of_int n)) then Inl OverflowError else Inr (fl (of_int n)))"

text \<open>
  \<open>card_str = str(int(float(card_no)))\<close> for a number, \<open>str(card_no)\<close> otherwise;
  \<open>int\<close> of an infinite float raises \<open>OverflowError\<close>. The resolver returns before
  this line for a missing cell, so the last equation is never used by it.
\<close>

fun card_str :: "card_token \<Rightarrow> py_error + string" where
  "card_str (IntTok n) =
     (case float_of_int n of Inl e \<Rightarrow> Inl e | Inr f \<Rightarrow> Inr (str_int (py_trunc f)))"
| "card_str (FloatTok q) = Inr (str_int (py_trunc q))"
| "card_str InfTok = Inl OverflowError"
| "card_str (StrTok s) = Inr s"
| "card_str Missing = Inr ''nan''"

definition get_person_name :: "card_token \<Rightarrow> py_error + string" where
  "get_person_name tok =
     (if tok = Missing then Inr ''Unknown''
      else case card_str tok of
             Inl e \<Rightarrow> Inl e
           | Inr s \<Rightarrow>
               Inr (case map_of card_to_person s of
                      Some name \<Rightarrow> name
                    | None \<Rightarrow> ''Unknown Card '' @ s))"

subsection \<open>The scorer \<open>_calculate_match_quality\<close>\<close>

text \<open>
  True division of two integers (line 256) and of two floats (line 257): both raise
  on a zero divisor and round the exact quotient. The day differences that reach the
  scorer are differences of timestamps, far too small for the integer quotient to
  leave the binary64 range.
\<close>

definition int_truediv :: "int \<Rightarrow> int \<Rightarrow> py_error + rat" where
  "int_truediv a b = (if b = 0 then Inl ZeroDivisionError else Inr (fl (of_int a / of_int b)))"

definition float_truediv :: "rat \<Rightarrow> rat \<Rightarrow> py_error + rat" where
  "float_truediv a b = (if b = 0 then Inl ZeroDivisionError else Inr (fl (a / b)))"

definition calculate_match_quality :: "reconciler \<Rightarrow> int \<Rightarrow> rat \<Rightarrow> rat \<Rightarrow> py_error + rat" where
  "calculate_match_quality self ddiff adiff pmq =
     (case int_truediv (tolerance_days self - ddiff) (tolerance_days self) of
        Inl e \<Rightarrow> Inl e
      | Inr d \<Rightarrow>
          (case float_truediv (fsub (tolerance_amount self) adiff) (tolerance_amount self) of
             Inl e \<Rightarrow> Inl e
           | Inr a \<Rightarrow>
               (let date_score = max 0 d; amount_score = max 0 a
                in if check_person self
                   then Inr (fadd (fadd (fmul date_score (fl 0.2)) (fmul amount_score (fl 0.4)))
                               (fmul pmq (fl 0.4)))
                   else Inr (fadd (fmul date_score (fl 0.3)) (fmul amount_score (fl 0.7))))))"

subsection \<open>The matcher \<open>find_matches\<close>\<close>

text \<open>
  The comparison of two person names (lines 200 to 213): the pair
  \<open>(person_match, person_match_quality)\<close>.
\<close>

definition person_compare :: "str_ops \<Rightarrow> string \<Rightarrow> string \<Rightarrow> bool \<times> rat" where
  "person_compare py cap_p job_p =
     (let cap_person = str_strip py cap_p; job_person = str_strip py job_p
      in if str_lower py cap_person = str_lower py job_person then (True, 1)
         else if py_in (str_lower py cap_person) (str_lower py job_person)
                 \<or> py_in (str_lower py job_person) (str_lower py cap_person)
         then (True, fl 0.8)
         else (False, 0))"

definition person_result :: "str_ops \<Rightarrow> reconciler \<Rightarrow> txn \<Rightarrow> txn \<Rightarrow> bool \<times> rat" where
  "person_result py self cap_row job_row =
     (if check_person self \<and> person cap_row \<noteq> ''N/A'' \<and> person job_row \<noteq> ''N/A''
      then person_compare py (person cap_row) (person job_row)
      else (True, 1))"

text \<open>
  The body of the inner loop for one pair of rows: an error, no candidate, or the
  candidate appended to \<open>matches\<close>.
\<close>

definition pair_body :: "str_ops \<Rightarrow> reconciler \<Rightarrow> txn \<Rightarrow> txn \<Rightarrow> py_error + match_row option" where
  "pair_body py self cap_row job_row =
     (let ddiff = \<bar>date cap_row - date job_row\<bar>;
          adiff = \<bar>fsub (amount cap_row) (amount job_row)\<bar>
      in if ddiff \<le> tolerance_days self \<and> adiff \<le> tolerance_amount self then
           (let pm = fst (person_result py self cap_row job_row);
                pmq = snd (person_result py self cap_row job_row)
            in if pm \<or> \<not> check_person self then
                 (case calculate_match_quality self ddiff adiff pmq of
                    Inl e \<Rightarrow> Inl e
                  | Inr q \<Rightarrow>
                      Inr (Some \<lparr>cap_idx = idx cap_row, job_idx = idx job_row,
                                 cap_date = date cap_row, job_date = date job_row,
                                 cap_amount = amount cap_row, job_amount = amount job_row,
                                 cap_desc = description cap_row, job_desc = description job_row,
                                 cap_person = person cap_row, job_person = person job_row,
                                 cap_card_no = card_no cap_row,
                                 date_diff = ddiff, amount_diff = adiff,
                                 person_match = pm, person_match_quality = pmq,
                                 match_quality = q\<rparr>))
               else Inr None)
         else Inr None)"

fun job_loop ::
  "str_ops \<Rightarrow> reconciler \<Rightarrow> txn \<Rightarrow> txn list \<Rightarrow> match_row list \<Rightarrow> py_error + match_row list" where
  "job_loop py self cap_row [] matches = Inr matches"
| "job_loop py self cap_row (job_row # jobs) matches =
     (case pair_body py self cap_row job_row of
        Inl e \<Rightarrow> Inl e
      | Inr None \<Rightarrow> job_loop py self cap_row jobs matches
      | Inr (Some m) \<Rightarrow> job_loop py self cap_row jobs (matches @ [m]))"

fun cap_loop ::
  "str_ops \<Rightarrow> reconciler \<Rightarrow> txn list \<Rightarrow> txn list \<Rightarrow> match_row list
   \<Rightarrow> py_error + match_row list" where
  "cap_loop py self [] jobber_df matches = Inr matches"
| "cap_loop py self (cap_row # caps) jobber_df matches =
     (case job_loop py self cap_row jobber_df matches of
        Inl e \<Rightarrow> Inl e
      | Inr matches' \<Rightarrow> cap_loop py self caps jobber_df matches')"

text \<open>
  \<open>list.sort(key=..., reverse=True)\<close>: the list is reversed, sorted stably in
  ascending order of the key, and reversed again.
\<close>

definition py_sort_reverse :: "('a \<Rightarrow> 'k::linorder) \<Rightarrow> 'a list \<Rightarrow> 'a list" where
  "py_sort_reverse key xs = rev (sort_key key (rev xs))"

text \<open>The pass that removes duplicates (lines 242 to 250).\<close>

fun remove_duplicates ::
  "match_row list \<Rightarrow> match_row list \<times> nat set \<times> nat set \<Rightarrow> match_row list \<times> nat set \<times> nat set" where
  "remove_duplicates [] st = st"
| "remove_duplicates (m # ms) (final_matches, used_cap_idx, used_job_idx) =
     (if cap_idx m \<notin> used_cap_idx \<and> job_idx m \<notin> used_job_idx
      then remove_duplicates ms
             (final_matches @ [m], insert (cap_idx m) used_cap_idx, insert (job_idx m) used_job_idx)
      else remove_duplicates ms (final_matches, used_cap_idx, used_job_idx))"

text \<open>The assignment step: lines 238 to 252, from the candidate list on.\<close>

definition assign :: "match_row list \<Rightarrow> match_row list \<times> nat set \<times> nat set" where
  "assign matches = remove_duplicates (py_sort_reverse match_quality matches) ([], {}, {})"

definition find_matches ::
  "str_ops \<Rightarrow> reconciler \<Rightarrow> txn list \<Rightarrow> txn list
   \<Rightarrow> py_error + (match_row list \<times> nat set \<times> nat set)" where
  "find_matches py self capitalone_df jobber_df =
     (case cap_loop py self capitalone_df jobber_df [] of
        Inl e \<Rightarrow> Inl e
      | Inr matches \<Rightarrow> Inr (assign matches))"

subsection \<open>The classification of \<open>generate_report_df\<close>\<close>

definition unmatched :: "txn list \<Rightarrow> nat set \<Rightarrow> txn list" where
  "unmatched df used = filter (\<lambda>row. idx row \<notin> used) df"

definition generate_report_df ::
  "txn list \<Rightarrow> txn list \<Rightarrow> match_row list \<Rightarrow> nat set \<Rightarrow> nat set \<Rightarrow> report_row list" where
  "generate_report_df capitalone_df jobber_df matches used_cap_idx used_job_idx =
     map MATCH matches
     @ map MISSING_IN_JOBBER (unmatched capitalone_df used_cap_idx)
     @ map MISSING_IN_CAPITALONE (unmatched jobber_df used_job_idx)"

subsection \<open>Auxiliary notions for the statements\<close>

text \<open>
  The local values \<open>date_score\<close> and \<open>amount_score\<close> of the scorer (lines 256 and
  257), where the divisions are defined.
\<close>

definition date_score :: "reconciler \<Rightarrow> int \<Rightarrow> rat" where
  "date_score self ddiff =
     max 0 (fl (of_int (tolerance_days self - ddiff) / of_int (tolerance_days self)))"

definition amount_score :: "reconciler \<Rightarrow> rat \<Rightarrow> rat" where
  "amount_score self adiff =
     max 0 (fl (fsub (tolerance_amount self) adiff / tolerance_amount self))"

text \<open>
  The two weightings: the expression returned at line 261 and the one returned at
  line 264, with Python's order of evaluation, every product and sum rounded.
\<close>

definition weighted_with_person :: "rat \<Rightarrow> rat \<Rightarrow> rat \<Rightarrow> rat" where
  "weighted_with_person dscore ascore pscore =
     fadd (fadd (fmul dscore (fl 0.2)) (fmul ascore (fl 0.4))) (fmul pscore (fl 0.4))"

definition weighted_without_person :: "rat \<Rightarrow> rat \<Rightarrow> rat" where
  "weighted_without_person dscore ascore =
     fadd (fmul dscore (fl 0.3)) (fmul ascore (fl 0.7))"

text \<open>
  The candidate list that the two nested loops build when no division fails: what
  each pair of rows contributes, in row order.
\<close>

definition pair_candidates :: "str_ops \<Rightarrow> reconciler \<Rightarrow> txn \<Rightarrow> txn \<Rightarrow> match_row list" where
  "pair_candidates py self cap_row job_row =
     (case pair_body py self cap_row job_row of Inr (Some m) \<Rightarrow> [m] | _ \<Rightarrow> [])"

definition candidates :: "str_ops \<Rightarrow> reconciler \<Rightarrow> txn list \<Rightarrow> txn list \<Rightarrow> match_row list" where
  "candidates py self caps jobs =
     concat (map (\<lambda>cap_row. concat (map (pair_candidates py self cap_row) jobs)) caps)"

subsection \<open>Reference notions of the specification\<close>

text \<open>
  The identity comparison in the specification's words, for a given lower-casing:
  1.0 when the two strings are equal ignoring case, else 0.8 when one of them occurs
  inside the other ignoring case (\<open>b = ps @ a @ ss\<close> for some \<open>ps\<close> and \<open>ss\<close>), else
  0.0.
\<close>

definition spec_identity_score :: "(string \<Rightarrow> string) \<Rightarrow> string \<Rightarrow> string \<Rightarrow> rat" where
  "spec_identity_score lower a b =
     (if lower a = lower b then 1
      else if sublist (lower a) (lower b) \<or> sublist (lower b) (lower a) then fl 0.8
      else 0)"

text \<open>
  The number that a string of decimal digits denotes, with an optional minus sign;
  \<open>None\<close> for any other string.
\<close>

definition digit_value :: "char \<Rightarrow> int option" where
  "digit_value c = map_of (zip ''0123456789'' [0, 1, 2, 3, 4, 5, 6, 7, 8, 9]) c"

fun dec_digits :: "int \<Rightarrow> string \<Rightarrow> int option" where
  "dec_digits acc [] = Some acc"
| "dec_digits acc (c # cs) =
     (case digit_value c of None \<Rightarrow> None | Some d \<Rightarrow> dec_digits (10 * acc + d) cs)"

definition dec_value :: "string \<Rightarrow> int option" where
  "dec_value s =
     (case s of
        [] \<Rightarrow> None
      | c # cs \<Rightarrow>
          if c = CHR ''-'' then (if cs = [] then None else map_option uminus (dec_digits 0 cs))
          else dec_digits 0 s)"

text \<open>
  The assignment step in the specification's words: a stable sort by descending
  quality, then one traversal that accepts a candidate when neither of its ids is
  consumed, marks both ids consumed and adds the candidate to the matches.
\<close>

fun spec_traverse ::
  "match_row list \<Rightarrow> nat set \<Rightarrow> nat set \<Rightarrow> match_row list \<times> nat set \<times> nat set" where
  "spec_traverse [] consumed_src consumed_tgt = ([], consumed_src, consumed_tgt)"
| "spec_traverse (c # cs) consumed_src consumed_tgt =
     (if cap_idx c \<in> consumed_src \<or> job_idx c \<in> consumed_tgt
      then spec_traverse cs consumed_src consumed_tgt
      else (case spec_traverse cs (insert (cap_idx c) consumed_src)
                   (insert (job_idx c) consumed_tgt) of
              (ms, src, tgt) \<Rightarrow> (c # ms, src, tgt)))"

definition spec_resolve :: "match_row list \<Rightarrow> match_row list \<times> nat set \<times> nat set" where
  "spec_resolve cs = spec_traverse (sort_key (\<lambda>c. - match_quality c) cs) {} {}"

text \<open>The generation order: source id ascending, then target id ascending.\<close>

definition generation_order :: "match_row \<Rightarrow> match_row \<Rightarrow> bool" where
  "generation_order a b \<longleftrightarrow>
     cap_idx a < cap_idx b \<or> (cap_idx a = cap_idx b \<and> job_idx a < job_idx b)"

subsection \<open>Forgetting the person fields\<close>

definition forget_person :: "txn \<Rightarrow> txn" where
  "forget_person row = row\<lparr>person := [], card_no := []\<rparr>"

definition forget_persons :: "match_row \<Rightarrow> match_row" where
  "forget_persons m = m\<lparr>cap_person := [], job_person := [], cap_card_no := []\<rparr>"

fun forget_row :: "report_row \<Rightarrow> report_row" where
  "forget_row (MATCH m) = MATCH (forget_persons m)"
| "forget_row (MISSING_IN_JOBBER row) = MISSING_IN_JOBBER (forget_person row)"
| "forget_row (MISSING_IN_CAPITALONE row) = MISSING_IN_CAPITALONE (forget_person row)"

definition forget_result ::
  "py_error + (match_row list \<times> nat set \<times> nat set)
   \<Rightarrow> py_error + (match_row list \<times> nat set \<times> nat set)" where
  "forget_result r =
     (case r of
        Inl e \<Rightarrow> Inl e
      | Inr (fm, uc, uj) \<Rightarrow> Inr (map forget_persons fm, uc, uj))"

subsection \<open>Example inputs\<close>

text \<open>The constructor's defaults, and the same settings with the person check off.\<close>

definition default_reconciler :: reconciler where
  "default_reconciler = \<lparr>tolerance_amount = 2.0, tolerance_days = 2, check_person = True\<rparr>"

definition no_person_reconciler :: reconciler where
  "no_person_reconciler = \<lparr>tolerance_amount = 2.0, tolerance_days = 2, check_person = False\<rparr>"

text \<open>
  A card transaction of 100.00 on day 0 by Aaron Davidson (and the same transaction
  on Jerry Morales' card), a second one of 101.00 on
  day 1 by Alex Masuda, a third one of 101.50 on day 1 without a card number, and three
  expense entries: 101.50 on day 1 entered by Alex
  Masuda, 100.00 on day 0 entered by \<open>Aaron\<close>, and 100.00 on day 1 from a sheet
  without an \<open>Entered by\<close> column.
\<close>

definition cap_aaron :: txn where
  "cap_aaron = \<lparr>idx = 0, date = 0, amount = 100, description = ''HOME DEPOT'',
                 person = ''Aaron Davidson'', card_no = ''9265''\<rparr>"

definition cap_aaron_other :: txn where
  "cap_aaron_other = \<lparr>idx = 0, date = 0, amount = 100, description = ''HOME DEPOT'',
                       person = ''Jerry Morales'', card_no = ''3253''\<rparr>"

definition cap_alex :: txn where
  "cap_alex = \<lparr>idx = 1, date = 1, amount = 101, description = ''LOWES'',
                person = ''Alex Masuda'', card_no = ''4298''\<rparr>"

definition cap_unknown :: txn where
  "cap_unknown = \<lparr>idx = 2, date = 1, amount = 101.5, description = ''SHELL'',
                   person = ''Unknown'', card_no = ''nan''\<rparr>"

definition job_alex :: txn where
  "job_alex = \<lparr>idx = 0, date = 1, amount = 101.5, description = ''Materials'',
                person = ''Alex Masuda'', card_no = ''N/A''\<rparr>"

definition job_aaron :: txn where
  "job_aaron = \<lparr>idx = 1, date = 0, amount = 100, description = ''Lumber'',
                 person = ''Aaron'', card_no = ''N/A''\<rparr>"

definition job_na :: txn where
  "job_na = \<lparr>idx = 2, date = 1, amount = 100, description = ''Paint'',
              person = ''N/A'', card_no = ''N/A''\<rparr>"

text \<open>The match rows that these inputs produce.\<close>

definition match_alex_off :: match_row where
  "match_alex_off =
     \<lparr>cap_idx = 1, job_idx = 0, cap_date = 1, job_date = 1, cap_amount = 101,
      job_amount = 101.5, cap_desc = ''LOWES'', job_desc = ''Materials'',
      cap_person = ''Alex Masuda'', job_person = ''Alex Masuda'', cap_card_no = ''4298'',
      date_diff = 0, amount_diff = 0.5, person_match = True, person_match_quality = 1,
      match_quality = fl 0.825\<rparr>"

definition match_aaron_off :: match_row where
  "match_aaron_off =
     \<lparr>cap_idx = 0, job_idx = 0, cap_date = 0, job_date = 1, cap_amount = 100,
      job_amount = 101.5, cap_desc = ''HOME DEPOT'', job_desc = ''Materials'',
      cap_person = ''Aaron Davidson'', job_person = ''Alex Masuda'', cap_card_no = ''9265'',
      date_diff = 1, amount_diff = 1.5, person_match = True, person_match_quality = 1,
      match_quality = fl 0.32499999999999996\<rparr>"

definition match_aaron_partial :: match_row where
  "match_aaron_partial =
     \<lparr>cap_idx = 0, job_idx = 1, cap_date = 0, job_date = 0, cap_amount = 100,
      job_amount = 100, cap_desc = ''HOME DEPOT'', job_desc = ''Lumber'',
      cap_person = ''Aaron Davidson'', job_person = ''Aaron'', cap_card_no = ''9265'',
      date_diff = 0, amount_diff = 0, person_match = True, person_match_quality = fl 0.8,
      match_quality = fl 0.9200000000000002\<rparr>"

definition match_aaron_na :: match_row where
  "match_aaron_na =
     \<lparr>cap_idx = 0, job_idx = 2, cap_date = 0, job_date = 1, cap_amount = 100,
      job_amount = 100, cap_desc = ''HOME DEPOT'', job_desc = ''Paint'',
      cap_person = ''Aaron Davidson'', job_person = ''N/A'', cap_card_no = ''9265'',
      date_diff = 1, amount_diff = 0, person_match = True, person_match_quality = 1,
      match_quality = fl 0.9\<rparr>"

definition match_alex_on :: match_row where
  "match_alex_on =
     \<lparr>cap_idx = 1, job_idx = 0, cap_date = 1, job_date = 1, cap_amount = 101,
      job_amount = 101.5, cap_desc = ''LOWES'', job_desc = ''Materials'',
      cap_person = ''Alex Masuda'', job_person = ''Alex Masuda'', cap_card_no = ''4298'',
      date_diff = 0, amount_diff = 0.5, person_match = True, person_match_quality = 1,
      match_quality = fl 0.9\<rparr>"

definition match_alex_na :: match_row where
  "match_alex_na =
     \<lparr>cap_idx = 1, job_idx = 2, cap_date = 1, job_date = 1, cap_amount = 101,
      job_amount = 100, cap_desc = ''LOWES'', job_desc = ''Paint'',
      cap_person = ''Alex Masuda'', job_person = ''N/A'', cap_card_no = ''4298'',
      date_diff = 0, amount_diff = 1, person_match = True, person_match_quality = 1,
      match_quality = fl 0.8\<rparr>"

definition match_other_off :: match_row where
  "match_other_off =
     \<lparr>cap_idx = 0, job_idx = 0, cap_date = 0, job_date = 1, cap_amount = 100,
      job_amount = 101.5, cap_desc = ''HOME DEPOT'', job_desc = ''Materials'',
      cap_person = ''Jerry Morales'', job_person = ''Alex Masuda'', cap_card_no = ''3253'',
      date_diff = 1, amount_diff = 1.5, person_match = True, person_match_quality = 1,
      match_quality = fl 0.32499999999999996\<rparr>"

section \<open>Properties of the loops\<close>

lemma quality_defined:
  assumes "tolerance_days self \<noteq> 0" "tolerance_amount self \<noteq> 0"
  shows "calculate_match_quality self ddiff adiff pmq =
           Inr (if check_person self
                then weighted_with_person (date_score self ddiff) (amount_score self adiff) pmq
                else weighted_without_person (date_score self ddiff) (amount_score self adiff))"
  using assms
  by (simp add: calculate_match_quality_def int_truediv_def float_truediv_def date_score_def
      amount_score_def weighted_with_person_def weighted_without_person_def Let_def)

lemma quality_error_cases:
  "calculate_match_quality self ddiff adiff pmq = Inl e \<Longrightarrow>
     tolerance_days self = 0 \<or> tolerance_amount self = 0"
  using quality_defined [of self ddiff adiff pmq] by auto

lemma quality_Inr_nonzero:
  "calculate_match_quality self ddiff adiff pmq = Inr q \<Longrightarrow>
     tolerance_days self \<noteq> 0 \<and> tolerance_amount self \<noteq> 0"
  by (auto simp: calculate_match_quality_def int_truediv_def float_truediv_def
      split: if_splits sum.splits)

lemma pair_body_no_error:
  assumes "tolerance_days self \<noteq> 0" "tolerance_amount self \<noteq> 0"
  shows "pair_body py self c j \<noteq> Inl e"
  using assms by (simp add: pair_body_def Let_def quality_defined)

lemma pair_body_Some:
  assumes "pair_body py self c j = Inr (Some m)"
  shows "cap_idx m = idx c \<and> job_idx m = idx j
       \<and> cap_date m = date c \<and> job_date m = date j
       \<and> cap_amount m = amount c \<and> job_amount m = amount j
       \<and> date_diff m = \<bar>date c - date j\<bar> \<and> amount_diff m = \<bar>fsub (amount c) (amount j)\<bar>
       \<and> date_diff m \<le> tolerance_days self \<and> amount_diff m \<le> tolerance_amount self
       \<and> person_match m = fst (person_result py self c j)
       \<and> person_match_quality m = snd (person_result py self c j)
       \<and> (person_match m \<or> \<not> check_person self)
       \<and> calculate_match_quality self (date_diff m) (amount_diff m) (person_match_quality m)
            = Inr (match_quality m)"
  using assms
  by (auto simp: pair_body_def Let_def split: if_splits sum.splits)

lemma pair_body_SomeD:
  assumes "pair_body py self c j = Inr (Some m)"
  shows "cap_idx m = idx c" and "job_idx m = idx j"
    and "date_diff m = \<bar>date c - date j\<bar>" and "amount_diff m = \<bar>fsub (amount c) (amount j)\<bar>"
    and "person_match m = fst (person_result py self c j)"
    and "person_match_quality m = snd (person_result py self c j)"
    and "person_match m \<or> \<not> check_person self"
    and "calculate_match_quality self (date_diff m) (amount_diff m) (person_match_quality m)
            = Inr (match_quality m)"
proof -
  note p = pair_body_Some [OF assms]
  show "cap_idx m = idx c" using p by (elim conjE)
  show "job_idx m = idx j" using p by (elim conjE)
  show "date_diff m = \<bar>date c - date j\<bar>" using p by (elim conjE)
  show "amount_diff m = \<bar>fsub (amount c) (amount j)\<bar>" using p by (elim conjE)
  show "person_match m = fst (person_result py self c j)" using p by (elim conjE)
  show "person_match_quality m = snd (person_result py self c j)" using p by (elim conjE)
  show "person_match m \<or> \<not> check_person self" using p by (elim conjE)
  show "calculate_match_quality self (date_diff m) (amount_diff m) (person_match_quality m)
            = Inr (match_quality m)" using p by (elim conjE)
qed

lemma fl_08_nonzero: "fl 0.8 \<noteq> 0"
  by code_simp

lemma person_result_values:
  "person_result py self c j = (True, 1) \<or> person_result py self c j = (True, fl 0.8)
   \<or> person_result py self c j = (False, 0)"
  by (simp add: person_result_def person_compare_def Let_def)

lemma pair_body_quality:
  assumes "pair_body py self c j = Inr (Some m)"
  shows "match_quality m =
           (if check_person self
            then weighted_with_person (date_score self (date_diff m))
                   (amount_score self (amount_diff m)) (person_match_quality m)
            else weighted_without_person (date_score self (date_diff m))
                   (amount_score self (amount_diff m)))"
proof -
  have q: "calculate_match_quality self (date_diff m) (amount_diff m) (person_match_quality m)
      = Inr (match_quality m)"
    using assms by (rule pair_body_SomeD)
  have "tolerance_days self \<noteq> 0" "tolerance_amount self \<noteq> 0"
    using quality_Inr_nonzero [OF q] by simp_all
  from quality_defined [OF this] q show ?thesis by simp
qed

lemma pair_candidates_simps:
  "pair_body py self c j = Inr (Some m) \<Longrightarrow> pair_candidates py self c j = [m]"
  "pair_body py self c j = Inr None \<Longrightarrow> pair_candidates py self c j = []"
  "pair_body py self c j = Inl e \<Longrightarrow> pair_candidates py self c j = []"
  by (simp_all add: pair_candidates_def)

lemma job_loop_Inr:
  "job_loop py self c jobs acc = Inr ms \<Longrightarrow> ms = acc @ concat (map (pair_candidates py self c) jobs)"
proof (induction jobs arbitrary: acc)
  case Nil
  then show ?case by simp
next
  case (Cons j jobs)
  show ?case
  proof (cases "pair_body py self c j")
    case (Inl e)
    then show ?thesis using Cons.prems by simp
  next
    case (Inr r)
    show ?thesis
    proof (cases r)
      case None
      then have "job_loop py self c jobs acc = Inr ms"
        using Inr Cons.prems by simp
      then have "ms = acc @ concat (map (pair_candidates py self c) jobs)"
        by (rule Cons.IH)
      then show ?thesis using Inr None by (simp add: pair_candidates_simps)
    next
      case (Some m)
      then have "job_loop py self c jobs (acc @ [m]) = Inr ms"
        using Inr Cons.prems by simp
      then have "ms = (acc @ [m]) @ concat (map (pair_candidates py self c) jobs)"
        by (rule Cons.IH)
      then show ?thesis using Inr Some by (simp add: pair_candidates_simps)
    qed
  qed
qed

lemma cap_loop_Inr:
  "cap_loop py self caps jobs acc = Inr ms \<Longrightarrow> ms = acc @ candidates py self caps jobs"
proof (induction caps arbitrary: acc)
  case Nil
  then show ?case by (simp add: candidates_def)
next
  case (Cons c caps)
  from Cons.prems obtain ms' where j: "job_loop py self c jobs acc = Inr ms'"
    and r: "cap_loop py self caps jobs ms' = Inr ms"
    by (auto split: sum.splits)
  have "ms' = acc @ concat (map (pair_candidates py self c) jobs)"
    using j by (rule job_loop_Inr)
  moreover have "ms = ms' @ candidates py self caps jobs"
    using r by (rule Cons.IH)
  ultimately show ?case by (simp add: candidates_def)
qed

lemma job_loop_total:
  assumes "\<And>j e. j \<in> set jobs \<Longrightarrow> pair_body py self c j \<noteq> Inl e"
  shows "job_loop py self c jobs acc = Inr (acc @ concat (map (pair_candidates py self c) jobs))"
  using assms
proof (induction jobs arbitrary: acc)
  case Nil
  then show ?case by simp
next
  case (Cons j jobs)
  have "\<And>e. pair_body py self c j \<noteq> Inl e" using Cons.prems by simp
  moreover have "\<And>acc. job_loop py self c jobs acc = Inr (acc @ concat (map (pair_candidates py self c) jobs))"
    using Cons by simp
  ultimately show ?case
    by (cases "pair_body py self c j") (auto simp: pair_candidates_simps split: option.splits)
qed

lemma cap_loop_total:
  assumes "\<And>c j e. c \<in> set caps \<Longrightarrow> j \<in> set jobs \<Longrightarrow> pair_body py self c j \<noteq> Inl e"
  shows "cap_loop py self caps jobs acc = Inr (acc @ candidates py self caps jobs)"
  using assms
proof (induction caps arbitrary: acc)
  case Nil
  then show ?case by (simp add: candidates_def)
next
  case (Cons c caps)
  have "\<And>acc. job_loop py self c jobs acc = Inr (acc @ concat (map (pair_candidates py self c) jobs))"
    using Cons.prems by (intro job_loop_total) simp
  moreover have "\<And>acc. cap_loop py self caps jobs acc = Inr (acc @ candidates py self caps jobs)"
    using Cons by simp
  ultimately show ?case by (simp add: candidates_def)
qed

lemma candidates_origin:
  assumes "m \<in> set (candidates py self caps jobs)"
  shows "\<exists>c\<in>set caps. \<exists>j\<in>set jobs. pair_body py self c j = Inr (Some m)"
proof -
  from assms obtain c j where cj: "c \<in> set caps" "j \<in> set jobs"
    and m: "m \<in> set (pair_candidates py self c j)"
    by (auto simp: candidates_def)
  from m have "pair_body py self c j = Inr (Some m)"
    by (auto simp: pair_candidates_def split: sum.splits option.splits)
  with cj show ?thesis by blast
qed

lemma candidates_member:
  assumes "c \<in> set caps" "j \<in> set jobs" "pair_body py self c j = Inr (Some m)"
  shows "m \<in> set (candidates py self caps jobs)"
  using assms by (force simp: candidates_def pair_candidates_def)

lemma remove_duplicates_inv:
  assumes "remove_duplicates ms (fm, uc, uj) = (fm', uc', uj')"
    and "uc = cap_idx ` set fm" "uj = job_idx ` set fm"
    and "distinct (map cap_idx fm)" "distinct (map job_idx fm)"
  shows "uc' = cap_idx ` set fm' \<and> uj' = job_idx ` set fm'
       \<and> distinct (map cap_idx fm') \<and> distinct (map job_idx fm')
       \<and> set fm' \<subseteq> set fm \<union> set ms"
  using assms
proof (induction ms arbitrary: fm uc uj)
  case Nil
  then show ?case by auto
next
  case (Cons m ms)
  show ?case
  proof (cases "cap_idx m \<notin> uc \<and> job_idx m \<notin> uj")
    case True
    then have step: "remove_duplicates ms (fm @ [m], insert (cap_idx m) uc, insert (job_idx m) uj) = (fm', uc', uj')"
      using Cons.prems(1) by simp
    have "uc' = cap_idx ` set fm' \<and> uj' = job_idx ` set fm'
       \<and> distinct (map cap_idx fm') \<and> distinct (map job_idx fm')
       \<and> set fm' \<subseteq> set (fm @ [m]) \<union> set ms"
      using True Cons.prems(2-5) by (intro Cons.IH [OF step]) auto
    then show ?thesis by auto
  next
    case False
    then have step: "remove_duplicates ms (fm, uc, uj) = (fm', uc', uj')"
      using Cons.prems(1) by auto
    have "uc' = cap_idx ` set fm' \<and> uj' = job_idx ` set fm'
       \<and> distinct (map cap_idx fm') \<and> distinct (map job_idx fm')
       \<and> set fm' \<subseteq> set fm \<union> set ms"
      using Cons.prems(2-5) by (intro Cons.IH [OF step]) auto
    then show ?thesis by auto
  qed
qed

lemma set_py_sort_reverse: "set (py_sort_reverse key xs) = set xs"
  by (simp add: py_sort_reverse_def)

lemma assign_inv:
  assumes "assign cs = (fm, uc, uj)"
  shows "uc = cap_idx ` set fm \<and> uj = job_idx ` set fm
       \<and> distinct (map cap_idx fm) \<and> distinct (map job_idx fm) \<and> set fm \<subseteq> set cs"
  using remove_duplicates_inv [of "py_sort_reverse match_quality cs" "[]" "{}" "{}" fm uc uj] assms
  by (simp add: assign_def set_py_sort_reverse)

lemma find_matches_Inr:
  assumes "find_matches py self caps jobs = Inr (fm, uc, uj)"
  shows "cap_loop py self caps jobs [] = Inr (candidates py self caps jobs)
       \<and> assign (candidates py self caps jobs) = (fm, uc, uj)"
  using assms
  by (auto simp: find_matches_def split: sum.splits dest: cap_loop_Inr)

lemma length_filter_distinct_key:
  assumes "distinct (map f xs)" "S \<subseteq> f ` set xs"
  shows "length (filter (\<lambda>x. f x \<in> S) xs) = card S"
proof -
  have d: "distinct (filter (\<lambda>x. f x \<in> S) xs)"
    using assms(1) by (simp add: distinct_map)
  have inj: "inj_on f (set xs)" using assms(1) by (simp add: distinct_map)
  have "f ` set (filter (\<lambda>x. f x \<in> S) xs) = S" using assms(2) by auto
  moreover have "inj_on f (set (filter (\<lambda>x. f x \<in> S) xs))"
    using inj by (rule inj_on_subset) auto
  ultimately have "card S = card (set (filter (\<lambda>x. f x \<in> S) xs))"
    by (metis card_image)
  also have "\<dots> = length (filter (\<lambda>x. f x \<in> S) xs)"
    using d by (rule distinct_card)
  finally show ?thesis by simp
qed

lemma length_unmatched:
  assumes "distinct (map idx df)" "used \<subseteq> idx ` set df"
  shows "card used + length (unmatched df used) = length df"
proof -
  have "length (filter (\<lambda>x. idx x \<in> used) df) + length (filter (\<lambda>x. \<not> idx x \<in> used) df) = length df"
    by (rule sum_length_filter_compl)
  then show ?thesis
    using length_filter_distinct_key [OF assms] by (simp add: unmatched_def)
qed

lemma find_matches_total:
  assumes "tolerance_days self \<noteq> 0" "tolerance_amount self \<noteq> 0"
  shows "find_matches py self caps jobs = Inr (assign (candidates py self caps jobs))"
proof -
  have "cap_loop py self caps jobs [] = Inr ([] @ candidates py self caps jobs)"
    by (rule cap_loop_total) (rule pair_body_no_error [OF assms])
  then show ?thesis by (simp add: find_matches_def)
qed

lemma final_matches_origin:
  assumes "find_matches py self caps jobs = Inr (fm, uc, uj)" "m \<in> set fm"
  shows "\<exists>c\<in>set caps. \<exists>j\<in>set jobs. pair_body py self c j = Inr (Some m)"
proof -
  have "assign (candidates py self caps jobs) = (fm, uc, uj)"
    using find_matches_Inr [OF assms(1)] by simp
  then have "set fm \<subseteq> set (candidates py self caps jobs)"
    using assign_inv by blast
  then show ?thesis using assms(2) candidates_origin by blast
qed

subsection \<open>The sort and the traversal\<close>

lemma py_sort_reverse_stable:
  fixes key :: "'a \<Rightarrow> rat"
  shows "filter (\<lambda>x. key x = q) (py_sort_reverse key xs) = filter (\<lambda>x. key x = q) xs"
proof -
  have "filter (\<lambda>x. key x = q) (py_sort_reverse key xs)
      = rev (filter (\<lambda>x. key x = q) (sort_key key (rev xs)))"
    by (simp add: py_sort_reverse_def rev_filter)
  also have "\<dots> = rev (filter (\<lambda>x. key x = q) (rev xs))"
    by (simp only: sort_key_stable)
  also have "\<dots> = filter (\<lambda>x. key x = q) xs"
    by (simp add: rev_filter)
  finally show ?thesis .
qed

lemma py_sort_reverse_descending:
  fixes key :: "'a \<Rightarrow> rat"
  shows "sorted_wrt (\<lambda>a b. key b \<le> key a) (py_sort_reverse key xs)"
proof -
  have "sorted (map key (sort_key key (rev xs)))" by simp
  then have "sorted_wrt (\<lambda>a b. key a \<le> key b) (sort_key key (rev xs))"
    by (simp only: sorted_map)
  then show ?thesis
    by (simp add: py_sort_reverse_def sorted_wrt_rev)
qed

lemma mset_py_sort_reverse: "mset (py_sort_reverse key xs) = mset xs"
  by (simp add: py_sort_reverse_def)

lemma py_sort_reverse_eq:
  fixes key :: "'a \<Rightarrow> rat"
  shows "py_sort_reverse key xs = sort_key (\<lambda>x. - key x) xs"
proof (rule properties_for_sort_key [symmetric])
  show "mset (py_sort_reverse key xs) = mset xs" by (rule mset_py_sort_reverse)
next
  fix k
  have "filter (\<lambda>x. key x = key k) (py_sort_reverse key xs) = filter (\<lambda>x. key x = key k) xs"
    by (rule py_sort_reverse_stable)
  moreover have "(\<lambda>x. - key k = - key x) = (\<lambda>x. key x = key k)" by auto
  ultimately show "filter (\<lambda>x. - key k = - key x) (py_sort_reverse key xs)
      = filter (\<lambda>x. - key k = - key x) xs"
    by simp
next
  have "sorted_wrt (\<lambda>a b. - key a \<le> - key b) (py_sort_reverse key xs)"
    using py_sort_reverse_descending [of key xs] by simp
  then show "sorted (map (\<lambda>x. - key x) (py_sort_reverse key xs))"
    by (simp only: sorted_map)
qed

lemma remove_duplicates_traverse:
  "remove_duplicates ms (fm, S, T)
     = (case spec_traverse ms S T of (ms', S', T') \<Rightarrow> (fm @ ms', S', T'))"
proof (induction ms arbitrary: fm S T)
  case Nil
  then show ?case by simp
next
  case (Cons m ms)
  show ?case
  proof (cases "cap_idx m \<in> S \<or> job_idx m \<in> T")
    case True
    then show ?thesis using Cons.IH [of fm S T] by auto
  next
    case False
    then show ?thesis
      using Cons.IH [of "fm @ [m]" "insert (cap_idx m) S" "insert (job_idx m) T"]
      by (auto split: prod.splits)
  qed
qed

lemma assign_spec_resolve: "assign cs = spec_resolve cs"
  by (simp add: assign_def spec_resolve_def remove_duplicates_traverse py_sort_reverse_eq
      split: prod.splits)

lemma pair_candidates_cases:
  "pair_candidates py self c j = []
   \<or> (\<exists>m. pair_candidates py self c j = [m] \<and> cap_idx m = idx c \<and> job_idx m = idx j)"
proof (cases "pair_body py self c j")
  case (Inl e)
  then show ?thesis by (simp add: pair_candidates_simps)
next
  case (Inr r)
  show ?thesis
  proof (cases r)
    case None
    then show ?thesis using Inr by (simp add: pair_candidates_simps)
  next
    case (Some m)
    then have "pair_body py self c j = Inr (Some m)" using Inr by simp
    then show ?thesis
      using pair_body_SomeD(1,2) [of py self c j m] by (simp add: pair_candidates_simps)
  qed
qed

lemma job_candidates_ids:
  assumes "m \<in> set (concat (map (pair_candidates py self c) jobs))"
  shows "cap_idx m = idx c \<and> job_idx m \<in> idx ` set jobs"
proof -
  from assms obtain j where j: "j \<in> set jobs" "m \<in> set (pair_candidates py self c j)" by auto
  then show ?thesis using pair_candidates_cases [of py self c j] by auto
qed

lemma job_candidates_sorted:
  assumes "sorted_wrt (<) (map idx jobs)"
  shows "sorted_wrt generation_order (concat (map (pair_candidates py self c) jobs))"
  using assms
proof (induction jobs)
  case Nil
  then show ?case by simp
next
  case (Cons j jobs)
  have rest: "sorted_wrt generation_order (concat (map (pair_candidates py self c) jobs))"
    using Cons by simp
  have lt: "\<forall>j'\<in>set jobs. idx j < idx j'" using Cons.prems by simp
  show ?case
  proof (cases "pair_candidates py self c j = []")
    case True
    then show ?thesis using rest by simp
  next
    case False
    then obtain m where m: "pair_candidates py self c j = [m]" "cap_idx m = idx c" "job_idx m = idx j"
      using pair_candidates_cases [of py self c j] by auto
    have "\<forall>m'\<in>set (concat (map (pair_candidates py self c) jobs)). generation_order m m'"
    proof
      fix m' assume "m' \<in> set (concat (map (pair_candidates py self c) jobs))"
      from job_candidates_ids [OF this] show "generation_order m m'"
        using m lt by (auto simp: generation_order_def)
    qed
    then show ?thesis using rest m(1) by simp
  qed
qed

lemma candidates_sorted:
  assumes "sorted_wrt (<) (map idx caps)" "sorted_wrt (<) (map idx jobs)"
  shows "sorted_wrt generation_order (candidates py self caps jobs)"
  using assms(1)
proof (induction caps)
  case Nil
  then show ?case by (simp add: candidates_def)
next
  case (Cons c caps)
  have rest: "sorted_wrt generation_order (candidates py self caps jobs)"
    using Cons by simp
  have lt: "\<forall>c'\<in>set caps. idx c < idx c'" using Cons.prems by simp
  have cross: "\<forall>m\<in>set (concat (map (pair_candidates py self c) jobs)).
      \<forall>m'\<in>set (candidates py self caps jobs). generation_order m m'"
  proof (intro ballI)
    fix m m'
    assume m: "m \<in> set (concat (map (pair_candidates py self c) jobs))"
      and m': "m' \<in> set (candidates py self caps jobs)"
    from m' obtain c' where c': "c' \<in> set caps"
      "m' \<in> set (concat (map (pair_candidates py self c') jobs))"
      by (auto simp: candidates_def)
    have "cap_idx m = idx c" using job_candidates_ids [OF m] by simp
    moreover have "cap_idx m' = idx c'" using job_candidates_ids [OF c'(2)] by simp
    ultimately show "generation_order m m'"
      using lt c'(1) by (simp add: generation_order_def)
  qed
  have "candidates py self (c # caps) jobs
      = concat (map (pair_candidates py self c) jobs) @ candidates py self caps jobs"
    by (simp add: candidates_def)
  then show ?case
    using rest cross job_candidates_sorted [OF assms(2), of py self c]
    by (simp add: sorted_wrt_append)
qed

subsection \<open>Rows that differ in the person fields\<close>

lemma forget_persons_fields [simp]:
  "cap_idx (forget_persons m) = cap_idx m" "job_idx (forget_persons m) = job_idx m"
  "match_quality (forget_persons m) = match_quality m"
  by (simp_all add: forget_persons_def)

lemma forget_person_fields [simp]:
  "idx (forget_person r) = idx r" "date (forget_person r) = date r"
  "amount (forget_person r) = amount r" "description (forget_person r) = description r"
  by (simp_all add: forget_person_def)

lemma pair_body_forget:
  assumes "\<not> check_person self"
  shows "pair_body py self (forget_person c) (forget_person j)
       = (case pair_body py self c j of
            Inl e \<Rightarrow> Inl e
          | Inr r \<Rightarrow> Inr (map_option forget_persons r))"
  using assms
  by (simp add: pair_body_def Let_def person_result_def forget_persons_def forget_person_def
      split: sum.splits)

lemma job_loop_forget:
  assumes "\<not> check_person self"
  shows "job_loop py self (forget_person c) (map forget_person jobs) (map forget_persons acc)
       = (case job_loop py self c jobs acc of
            Inl e \<Rightarrow> Inl e
          | Inr ms \<Rightarrow> Inr (map forget_persons ms))"
proof (induction jobs arbitrary: acc)
  case Nil
  then show ?case by simp
next
  case (Cons j jobs)
  show ?case
  proof (cases "pair_body py self c j")
    case (Inl e)
    then show ?thesis by (simp add: pair_body_forget [OF assms])
  next
    case (Inr r)
    show ?thesis
    proof (cases r)
      case None
      then show ?thesis using Inr Cons.IH [of acc] by (simp add: pair_body_forget [OF assms])
    next
      case (Some m)
      then show ?thesis
        using Inr Cons.IH [of "acc @ [m]"] by (simp add: pair_body_forget [OF assms])
    qed
  qed
qed

lemma cap_loop_forget:
  assumes "\<not> check_person self"
  shows "cap_loop py self (map forget_person caps) (map forget_person jobs) (map forget_persons acc)
       = (case cap_loop py self caps jobs acc of
            Inl e \<Rightarrow> Inl e
          | Inr ms \<Rightarrow> Inr (map forget_persons ms))"
proof (induction caps arbitrary: acc)
  case Nil
  then show ?case by simp
next
  case (Cons c caps)
  show ?case
  proof (cases "job_loop py self c jobs acc")
    case (Inl e)
    then show ?thesis by (simp add: job_loop_forget [OF assms])
  next
    case (Inr ms)
    then show ?thesis using Cons.IH [of ms] by (simp add: job_loop_forget [OF assms])
  qed
qed

lemma cap_loop_forget_nil:
  assumes "\<not> check_person self"
  shows "map_sum id (map forget_persons) (cap_loop py self caps jobs [])
       = cap_loop py self (map forget_person caps) (map forget_person jobs) []"
  using cap_loop_forget [OF assms, of py caps jobs "[]"]
  by (cases "cap_loop py self caps jobs []") simp_all

lemma insort_key_map_same:
  assumes "\<And>x. f (g x) = f x"
  shows "insort_key f (g x) (map g ys) = map g (insort_key f x ys)"
  by (induction ys) (simp_all add: assms)

lemma sort_key_map_same:
  assumes "\<And>x. f (g x) = f x"
  shows "sort_key f (map g xs) = map g (sort_key f xs)"
  by (induction xs) (simp_all add: insort_key_map_same [of f g, OF assms])

lemma spec_traverse_forget:
  "spec_traverse (map forget_persons ms) S T
     = (case spec_traverse ms S T of (r, S', T') \<Rightarrow> (map forget_persons r, S', T'))"
  by (induction ms arbitrary: S T) (auto split: prod.splits)

lemma assign_forget:
  "assign (map forget_persons cs)
     = (case assign cs of (fm, uc, uj) \<Rightarrow> (map forget_persons fm, uc, uj))"
proof -
  have "sort_key (\<lambda>c. - match_quality c) (map forget_persons cs)
      = map forget_persons (sort_key (\<lambda>c. - match_quality c) cs)"
    by (rule sort_key_map_same) simp
  then show ?thesis
    by (simp add: assign_spec_resolve spec_resolve_def spec_traverse_forget)
qed

lemma find_matches_forget:
  assumes "\<not> check_person self"
  shows "find_matches py self (map forget_person caps) (map forget_person jobs)
       = forget_result (find_matches py self caps jobs)"
proof -
  have l: "cap_loop py self (map forget_person caps) (map forget_person jobs) []
       = (case cap_loop py self caps jobs [] of
            Inl e \<Rightarrow> Inl e
          | Inr ms \<Rightarrow> Inr (map forget_persons ms))"
    using cap_loop_forget [OF assms, of py caps jobs "[]"] by simp
  show ?thesis
    by (cases "cap_loop py self caps jobs []")
      (simp_all add: find_matches_def l forget_result_def assign_forget split: prod.splits)
qed

lemma unmatched_forget:
  "unmatched (map forget_person df) used = map forget_person (unmatched df used)"
  by (simp add: unmatched_def filter_map comp_def)

lemma report_forget:
  "map forget_row (generate_report_df caps jobs fm uc uj)
     = generate_report_df (map forget_person caps) (map forget_person jobs)
         (map forget_persons fm) uc uj"
  by (simp add: generate_report_df_def unmatched_forget)

subsection \<open>Containment, decimal digits, and the greedy pass\<close>

lemma starts_with_prefix: "starts_with needle hay = prefix needle hay"
  by (induction needle hay rule: starts_with.induct) simp_all

lemma py_in_sublist: "py_in needle hay = sublist needle hay"
proof (induction hay)
  case Nil
  then show ?case by simp
next
  case (Cons h hs)
  then show ?case by (simp add: starts_with_prefix sublist_Cons_right)
qed

lemma digit_value_digit_char:
  assumes "0 \<le> d" "d < 10"
  shows "digit_value (digit_char d) = Some d \<and> digit_char d \<noteq> CHR ''-''"
proof -
  have "d = 0 \<or> d = 1 \<or> d = 2 \<or> d = 3 \<or> d = 4 \<or> d = 5 \<or> d = 6 \<or> d = 7 \<or> d = 8 \<or> d = 9"
    using assms by arith
  then show ?thesis
    by (elim disjE) (simp_all add: digit_value_def digit_char_def)
qed

lemma dec_digits_append:
  "dec_digits acc (xs @ ys)
     = (case dec_digits acc xs of None \<Rightarrow> None | Some a \<Rightarrow> dec_digits a ys)"
  by (induction xs arbitrary: acc) (simp_all split: option.splits)

lemma dec_digits_str_nat:
  "0 \<le> n \<Longrightarrow> dec_digits 0 (str_nat n) = Some n"
proof (induction n rule: str_nat.induct)
  case (1 n)
  show ?case
  proof (cases "n < 10")
    case True
    then show ?thesis
      using "1.prems" digit_value_digit_char [of n] by (simp add: str_nat.simps [of n])
  next
    case False
    have d: "digit_value (digit_char (n mod 10)) = Some (n mod 10)"
      using digit_value_digit_char [of "n mod 10"] by simp
    have "dec_digits 0 (str_nat (n div 10)) = Some (n div 10)"
      using False "1.prems" by (intro "1.IH") simp_all
    then show ?thesis
      using False d by (simp add: str_nat.simps [of n] dec_digits_append)
  qed
qed

lemma str_nat_head:
  "0 \<le> n \<Longrightarrow> \<exists>d cs. str_nat n = digit_char d # cs \<and> 0 \<le> d \<and> d < 10"
proof (induction n rule: str_nat.induct)
  case (1 n)
  show ?case
  proof (cases "n < 10")
    case True
    then have "str_nat n = digit_char n # [] \<and> 0 \<le> n \<and> n < 10"
      using "1.prems" by (simp add: str_nat.simps [of n])
    then show ?thesis by blast
  next
    case False
    then obtain d cs where h: "str_nat (n div 10) = digit_char d # cs" "0 \<le> d" "d < 10"
      using "1.IH" "1.prems" by fastforce
    have "str_nat n = digit_char d # (cs @ [digit_char (n mod 10)])"
      using False h(1) by (simp add: str_nat.simps [of n])
    then show ?thesis using h(2,3) by blast
  qed
qed

lemma dec_value_str_int: "dec_value (str_int n) = Some n"
proof (cases "n < 0")
  case True
  then obtain d cs where "str_nat (- n) = digit_char d # cs"
    using str_nat_head [of "- n"] by auto
  then show ?thesis
    using True dec_digits_str_nat [of "- n"] by (simp add: dec_value_def str_int_def)
next
  case False
  then obtain d cs where h: "str_nat n = digit_char d # cs" "0 \<le> d" "d < 10"
    using str_nat_head [of n] by auto
  then have "digit_char d \<noteq> CHR ''-''"
    using digit_value_digit_char by simp
  then show ?thesis
    using False h(1) dec_digits_str_nat [of n] by (simp add: dec_value_def str_int_def)
qed

lemma remove_duplicates_maximal:
  assumes "remove_duplicates ms (fm, uc, uj) = (fm', uc', uj')"
  shows "uc \<subseteq> uc' \<and> uj \<subseteq> uj' \<and> (\<forall>m\<in>set ms. cap_idx m \<in> uc' \<or> job_idx m \<in> uj')"
  using assms
proof (induction ms arbitrary: fm uc uj)
  case Nil
  then show ?case by auto
next
  case (Cons m ms)
  show ?case
  proof (cases "cap_idx m \<notin> uc \<and> job_idx m \<notin> uj")
    case True
    then have step: "remove_duplicates ms
        (fm @ [m], insert (cap_idx m) uc, insert (job_idx m) uj) = (fm', uc', uj')"
      using Cons.prems by simp
    from Cons.IH [OF step] show ?thesis by auto
  next
    case False
    then have step: "remove_duplicates ms (fm, uc, uj) = (fm', uc', uj')"
      using Cons.prems by auto
    from Cons.IH [OF step] show ?thesis using False by auto
  qed
qed

lemma assign_maximal:
  assumes "assign cs = (fm, uc, uj)" "m \<in> set cs"
  shows "cap_idx m \<in> uc \<or> job_idx m \<in> uj"
  using remove_duplicates_maximal [of "py_sort_reverse match_quality cs" "[]" "{}" "{}" fm uc uj]
    assms
  by (simp add: assign_def set_py_sort_reverse)

subsection \<open>Integers that binary64 holds exactly\<close>

lemma bit_length_pos: "0 < n \<Longrightarrow> 1 \<le> bit_length n"
proof -
  assume "0 < n"
  moreover have "0 \<le> bit_length m" for m
    by (induction m rule: bit_length.induct) (simp add: bit_length.simps)
  ultimately show ?thesis using bit_length.simps [of n] by (simp add: add_increasing2)
qed

lemma bit_length_bound: "n < 2 ^ b \<Longrightarrow> bit_length n \<le> int b"
proof (induction b arbitrary: n)
  case 0
  then show ?case by (simp add: bit_length.simps [of n])
next
  case (Suc b)
  show ?case
  proof (cases "n \<le> 0")
    case True
    then show ?thesis by (simp add: bit_length.simps [of n])
  next
    case False
    have "n div 2 < 2 ^ b" using Suc.prems by simp
    then have "bit_length (n div 2) \<le> int b" by (rule Suc.IH)
    then show ?thesis using False by (simp add: bit_length.simps [of n])
  qed
qed

lemma round_half_even_one: "round_half_even n 1 = n"
  by (simp add: round_half_even_def)

lemma pow2_cancel: "0 \<le> k \<Longrightarrow> of_int (n * 2 ^ nat k) * pow2 (- k) = of_int n"
  by (cases "k = 0") (simp_all add: pow2_def)

lemma fl_of_int_small:
  assumes "\<bar>n\<bar> < 2 ^ 53"
  shows "fl (of_int n) = of_int n"
proof (cases "n = 0")
  case True
  then show ?thesis by (simp add: fl_def)
next
  case False
  define e where "e = bit_length \<bar>n\<bar> - 1"
  have e0: "0 \<le> e" using False bit_length_pos [of "\<bar>n\<bar>"] by (simp add: e_def)
  have e52: "e \<le> 52" using bit_length_bound [OF assms] by (simp add: e_def)
  have n1: "1 \<le> \<bar>n\<bar>" using False by arith
  have il: "ilog2_frac \<bar>n\<bar> 1 = e"
    using n1 by (simp add: ilog2_frac_def e_def)
  have k: "max e (- 1022) - 52 = - (52 - e)" using e0 by simp
  show ?thesis
  proof (cases "e = 52")
    case True
    then show ?thesis
      using False by (simp add: fl_def il round_half_even_one pow2_def)
  next
    case F2: False
    then have lt: "e - 52 < 0" using e52 by simp
    have "of_int (n * 2 ^ nat (52 - e)) * pow2 (- (52 - e)) = (of_int n :: rat)"
      using e52 by (intro pow2_cancel) simp
    then show ?thesis
      using False lt e0 by (simp add: fl_def il round_half_even_one Let_def max_def)
  qed
qed

lemma not_overflows_small:
  assumes "\<bar>n\<bar> < 2 ^ 53"
  shows "\<not> overflows (of_int n)"
proof (cases "n = 0")
  case True
  then show ?thesis by (simp add: overflows_def)
next
  case False
  have n1: "1 \<le> \<bar>n\<bar>" using False by arith
  have "bit_length \<bar>n\<bar> \<le> 53" using bit_length_bound [OF assms] by simp
  then have "ilog2_frac \<bar>n\<bar> 1 < 1024"
    using n1 by (simp add: ilog2_frac_def)
  then show ?thesis
    by (simp add: overflows_def ilog2_def flip: of_int_abs)
qed

lemma py_trunc_of_int: "py_trunc (of_int n) = n"
  by (simp add: py_trunc_def)

lemma card_str_small:
  assumes "\<bar>n\<bar> < 2 ^ 53"
  shows "card_str (IntTok n) = Inr (str_int n)"
  using fl_of_int_small [OF assms] not_overflows_small [OF assms]
  by (simp add: float_of_int_def py_trunc_of_int)

subsection \<open>The examples, evaluated\<close>

lemma ex_pair_on:
  "pair_body ascii_ops default_reconciler cap_aaron job_alex = Inr None"
  "pair_body ascii_ops default_reconciler cap_aaron job_aaron = Inr (Some match_aaron_partial)"
  "pair_body ascii_ops default_reconciler cap_aaron job_na = Inr (Some match_aaron_na)"
  "pair_body ascii_ops default_reconciler cap_alex job_alex = Inr (Some match_alex_on)"
  "pair_body ascii_ops default_reconciler cap_alex job_aaron = Inr None"
  "pair_body ascii_ops default_reconciler cap_alex job_na = Inr (Some match_alex_na)"
  "pair_body ascii_ops default_reconciler cap_unknown job_alex = Inr None"
  by code_simp+

lemma ex_pair_off:
  "pair_body ascii_ops no_person_reconciler cap_aaron job_alex = Inr (Some match_aaron_off)"
  "pair_body ascii_ops no_person_reconciler cap_alex job_alex = Inr (Some match_alex_off)"
  "pair_body ascii_ops no_person_reconciler cap_aaron_other job_alex = Inr (Some match_other_off)"
  by code_simp+

lemma ex_loop_on:
  "cap_loop ascii_ops default_reconciler [cap_aaron, cap_alex] [job_alex, job_aaron, job_na] []
     = Inr [match_aaron_partial, match_aaron_na, match_alex_on, match_alex_na]"
  "cap_loop ascii_ops default_reconciler [cap_aaron] [job_alex] [] = Inr []"
  "cap_loop ascii_ops default_reconciler [cap_aaron] [job_aaron] [] = Inr [match_aaron_partial]"
  "cap_loop ascii_ops default_reconciler [cap_aaron] [job_na] [] = Inr [match_aaron_na]"
  "cap_loop ascii_ops default_reconciler [cap_unknown] [job_alex] [] = Inr []"
  by (simp_all add: ex_pair_on)

lemma ex_loop_off:
  "cap_loop ascii_ops no_person_reconciler [cap_aaron, cap_alex] [job_alex] []
     = Inr [match_aaron_off, match_alex_off]"
  "cap_loop ascii_ops no_person_reconciler [cap_aaron_other, cap_alex] [job_alex] []
     = Inr [match_other_off, match_alex_off]"
  "cap_loop ascii_ops no_person_reconciler [cap_aaron] [job_alex] [] = Inr [match_aaron_off]"
  by (simp_all add: ex_pair_off)

lemma ex_assign:
  "assign [match_aaron_partial, match_aaron_na, match_alex_on, match_alex_na]
     = ([match_aaron_partial, match_alex_on], {1, 0}, {0, 1})"
  "assign [match_aaron_off, match_alex_off] = ([match_alex_off], {1}, {0})"
  "assign [match_other_off, match_alex_off] = ([match_alex_off], {1}, {0})"
  by code_simp+

lemma assign_single: "assign [m] = ([m], {cap_idx m}, {job_idx m})"
  by (simp add: assign_def py_sort_reverse_def)

lemma assign_empty: "assign [] = ([], {}, {})"
  by (simp add: assign_def py_sort_reverse_def)

lemma ex_find_on_full:
  "find_matches ascii_ops default_reconciler [cap_aaron, cap_alex] [job_alex, job_aaron, job_na]
     = Inr ([match_aaron_partial, match_alex_on], {1, 0}, {0, 1})"
  unfolding find_matches_def ex_loop_on by (simp add: ex_assign)

lemma ex_find_on:
  "find_matches ascii_ops default_reconciler [cap_aaron] [job_alex] = Inr ([], {}, {})"
  "find_matches ascii_ops default_reconciler [cap_aaron] [job_aaron]
     = Inr ([match_aaron_partial], {0}, {1})"
  "find_matches ascii_ops default_reconciler [cap_aaron] [job_na]
     = Inr ([match_aaron_na], {0}, {2})"
  "find_matches ascii_ops default_reconciler [cap_unknown] [job_alex] = Inr ([], {}, {})"
  unfolding find_matches_def ex_loop_on
  by (simp_all add: assign_single assign_empty match_aaron_partial_def match_aaron_na_def)

lemma ex_find_off_full:
  "find_matches ascii_ops no_person_reconciler [cap_aaron, cap_alex] [job_alex]
     = Inr ([match_alex_off], {1}, {0})"
  "find_matches ascii_ops no_person_reconciler [cap_aaron_other, cap_alex] [job_alex]
     = Inr ([match_alex_off], {1}, {0})"
  unfolding find_matches_def ex_loop_off by (simp_all add: ex_assign)

lemma ex_find_off:
  "find_matches ascii_ops no_person_reconciler [cap_aaron] [job_alex]
     = Inr ([match_aaron_off], {0}, {0})"
  unfolding find_matches_def ex_loop_off
  by (simp add: assign_single match_aaron_off_def)

lemma ex_quality_values:
  "fl 0.9200000000000002 \<noteq> fl 0.92" "fl 0.9200000000000002 \<noteq> 0.92"
  "\<bar>fl 0.9200000000000002 - 0.92\<bar> < 1 / 10 ^ 15"
  "fl 0.32499999999999996 \<noteq> fl 0.325" "fl 0.32499999999999996 \<noteq> 0.325"
  "\<bar>fl 0.32499999999999996 - 0.325\<bar> < 1 / 10 ^ 15"
  "fl 0.9 \<noteq> fl 0.85"
  by code_simp+

section \<open>The claims\<close>

text \<open>
  C1, as the code has it. With the person check on, both persons different from
  \<open>N/A\<close> and a comparison that yields \<open>(False, 0.0)\<close>, the test of line 216 drops
  the pair: no candidate is appended, and with unique index labels no final match pairs
  the two rows. Every final match made with the person check on has
  \<open>person_match = True\<close> and a person quality other than 0.
\<close>

theorem identity_mismatch_excludes:
  "(check_person self \<and> person c \<noteq> ''N/A'' \<and> person j \<noteq> ''N/A''
      \<and> person_compare py (person c) (person j) = (False, 0) \<longrightarrow>
      pair_body py self c j = Inr None
      \<and> (c \<in> set caps \<and> j \<in> set jobs \<and> distinct (map idx caps) \<and> distinct (map idx jobs)
           \<and> find_matches py self caps jobs = Inr (fm, uc, uj) \<longrightarrow>
         (\<forall>m\<in>set fm. \<not> (cap_idx m = idx c \<and> job_idx m = idx j))))
   \<and> (check_person self \<and> find_matches py self caps jobs = Inr (fm, uc, uj) \<longrightarrow>
        (\<forall>m\<in>set fm. person_match m \<and> person_match_quality m \<noteq> 0))"
proof (intro conjI impI ballI)
  assume h: "check_person self \<and> person c \<noteq> ''N/A'' \<and> person j \<noteq> ''N/A''
      \<and> person_compare py (person c) (person j) = (False, 0)"
  then show none: "pair_body py self c j = Inr None"
    by (simp add: pair_body_def Let_def person_result_def)
  fix m
  assume g: "c \<in> set caps \<and> j \<in> set jobs \<and> distinct (map idx caps) \<and> distinct (map idx jobs)
           \<and> find_matches py self caps jobs = Inr (fm, uc, uj)" and m: "m \<in> set fm"
  show "\<not> (cap_idx m = idx c \<and> job_idx m = idx j)"
  proof
    assume e: "cap_idx m = idx c \<and> job_idx m = idx j"
    from g m obtain c' j' where o: "c' \<in> set caps" "j' \<in> set jobs"
      "pair_body py self c' j' = Inr (Some m)"
      using final_matches_origin by blast
    have "idx c' = idx c" "idx j' = idx j"
      using pair_body_SomeD(1,2) [OF o(3)] e by simp_all
    moreover have "inj_on idx (set caps)" "inj_on idx (set jobs)"
      using g by (simp_all add: distinct_map)
    ultimately have "c' = c" "j' = j"
      using o(1,2) g by (auto dest: inj_onD)
    then show False using o(3) none by simp
  qed
next
  fix m
  assume h: "check_person self \<and> find_matches py self caps jobs = Inr (fm, uc, uj)" and m: "m \<in> set fm"
  then obtain c j where o: "pair_body py self c j = Inr (Some m)"
    using final_matches_origin by blast
  have pm: "person_match m = fst (person_result py self c j)"
    "person_match_quality m = snd (person_result py self c j)"
    "person_match m \<or> \<not> check_person self"
    by (rule pair_body_SomeD [OF o])+
  then show "person_match m" using h by simp
  then show "person_match_quality m \<noteq> 0"
    using pm(1,2) person_result_values [of py self c j] fl_08_nonzero by auto
qed

theorem identity_mismatch_excludes_witness:
  "check_person default_reconciler \<and> person cap_aaron \<noteq> ''N/A'' \<and> person job_alex \<noteq> ''N/A''
   \<and> person_compare ascii_ops (person cap_aaron) (person job_alex) = (False, 0)
   \<and> pair_body ascii_ops default_reconciler cap_aaron job_alex = Inr None
   \<and> cap_aaron \<in> set [cap_aaron, cap_alex] \<and> job_alex \<in> set [job_alex, job_aaron, job_na]
   \<and> distinct (map idx [cap_aaron, cap_alex]) \<and> distinct (map idx [job_alex, job_aaron, job_na])
   \<and> find_matches ascii_ops default_reconciler [cap_aaron, cap_alex] [job_alex, job_aaron, job_na]
       = Inr ([match_aaron_partial, match_alex_on], {1, 0}, {0, 1})
   \<and> \<not> (cap_idx match_aaron_partial = idx cap_aaron \<and> job_idx match_aaron_partial = idx job_alex)
   \<and> \<not> (cap_idx match_alex_on = idx cap_aaron \<and> job_idx match_alex_on = idx job_alex)
   \<and> person_match match_aaron_partial \<and> person_match_quality match_aaron_partial \<noteq> 0
   \<and> person_match match_alex_on \<and> person_match_quality match_alex_on \<noteq> 0"
proof -
  have h: "check_person default_reconciler \<and> person cap_aaron \<noteq> ''N/A'' \<and> person job_alex \<noteq> ''N/A''
   \<and> person_compare ascii_ops (person cap_aaron) (person job_alex) = (False, 0)"
    by code_simp
  have f: "find_matches ascii_ops default_reconciler [cap_aaron, cap_alex]
       [job_alex, job_aaron, job_na]
       = Inr ([match_aaron_partial, match_alex_on], {1, 0}, {0, 1})"
    by (rule ex_find_on_full)
  have d: "cap_aaron \<in> set [cap_aaron, cap_alex] \<and> job_alex \<in> set [job_alex, job_aaron, job_na]
   \<and> distinct (map idx [cap_aaron, cap_alex]) \<and> distinct (map idx [job_alex, job_aaron, job_na])"
    by (simp add: cap_aaron_def cap_alex_def job_alex_def job_aaron_def job_na_def)
  note t = identity_mismatch_excludes [where py = ascii_ops and self = default_reconciler
      and c = cap_aaron and j = job_alex and caps = "[cap_aaron, cap_alex]"
      and jobs = "[job_alex, job_aaron, job_na]"
      and fm = "[match_aaron_partial, match_alex_on]" and uc = "{1, 0}" and uj = "{0, 1}"]
  have n: "pair_body ascii_ops default_reconciler cap_aaron job_alex = Inr None"
    using t h by blast
  have a: "\<forall>m\<in>set [match_aaron_partial, match_alex_on].
      \<not> (cap_idx m = idx cap_aaron \<and> job_idx m = idx job_alex)"
    using t h d f by blast
  have b: "\<forall>m\<in>set [match_aaron_partial, match_alex_on].
      person_match m \<and> person_match_quality m \<noteq> 0"
    using t h f by blast
  have a': "\<not> (cap_idx match_aaron_partial = idx cap_aaron \<and> job_idx match_aaron_partial = idx job_alex)
   \<and> \<not> (cap_idx match_alex_on = idx cap_aaron \<and> job_idx match_alex_on = idx job_alex)"
    using a by simp
  have b': "person_match match_aaron_partial \<and> person_match_quality match_aaron_partial \<noteq> 0
   \<and> person_match match_alex_on \<and> person_match_quality match_alex_on \<noteq> 0"
    using b by simp
  show ?thesis using h n d f a' b' by blast
qed

text \<open>
  The claim C1 itself fails: with the default settings, a card transaction by Aaron
  Davidson and an expense entered by Alex Masuda are within both tolerances and are
  the only pair, so nothing competes for them; the comparison yields \<open>(False, 0.0)\<close>,
  and the pair is neither a candidate nor a match.
\<close>

theorem identity_mismatch_counterexample:
  "check_person default_reconciler
   \<and> \<bar>date cap_aaron - date job_alex\<bar> \<le> tolerance_days default_reconciler
   \<and> \<bar>fsub (amount cap_aaron) (amount job_alex)\<bar> \<le> tolerance_amount default_reconciler
   \<and> person_compare ascii_ops (person cap_aaron) (person job_alex) = (False, 0)
   \<and> cap_loop ascii_ops default_reconciler [cap_aaron] [job_alex] [] = Inr []
   \<and> find_matches ascii_ops default_reconciler [cap_aaron] [job_alex] = Inr ([], {}, {})"
proof -
  have "check_person default_reconciler
   \<and> \<bar>date cap_aaron - date job_alex\<bar> \<le> tolerance_days default_reconciler
   \<and> \<bar>fsub (amount cap_aaron) (amount job_alex)\<bar> \<le> tolerance_amount default_reconciler
   \<and> person_compare ascii_ops (person cap_aaron) (person job_alex) = (False, 0)"
    by code_simp
  then show ?thesis using ex_loop_on(2) ex_find_on(1) by blast
qed

text \<open>
  C2, as the code has it. The two names are compared only when the person check is on
  and both persons differ from the literal \<open>N/A\<close>; a person \<open>Unknown\<close> is compared
  like any other name. For every candidate: with the person check off the quality is
  \<open>date_score * 0.3 + amount_score * 0.7\<close>; with the person check on and a person
  \<open>N/A\<close> on either side the comparison is skipped and the quality is
  \<open>date_score * 0.2 + amount_score * 0.4 + 1.0 * 0.4\<close>, with the default person
  quality 1.0; with the person check on and both persons present the quality is
  \<open>date_score * 0.2 + amount_score * 0.4 + person_match_quality * 0.4\<close>; each
  expression evaluated in binary64 as the source writes it.
\<close>

theorem quality_weighting:
  "pair_body py self c j = Inr (Some m) \<longrightarrow>
     (\<not> check_person self \<longrightarrow>
        person_match m \<and> person_match_quality m = 1
        \<and> match_quality m
            = weighted_without_person (date_score self (date_diff m))
              (amount_score self (amount_diff m)))
     \<and> (check_person self \<and> (person c = ''N/A'' \<or> person j = ''N/A'') \<longrightarrow>
        person_match m \<and> person_match_quality m = 1
        \<and> match_quality m
            = weighted_with_person (date_score self (date_diff m))
              (amount_score self (amount_diff m)) 1)
     \<and> (check_person self \<and> person c \<noteq> ''N/A'' \<and> person j \<noteq> ''N/A'' \<longrightarrow>
        (person_match m, person_match_quality m) = person_compare py (person c) (person j)
        \<and> match_quality m
            = weighted_with_person (date_score self (date_diff m))
              (amount_score self (amount_diff m)) (person_match_quality m))"
proof (intro impI)
  assume o: "pair_body py self c j = Inr (Some m)"
  note q = pair_body_quality [OF o]
  have pm: "person_match m = fst (person_result py self c j)"
    "person_match_quality m = snd (person_result py self c j)"
    by (rule pair_body_SomeD [OF o])+
  show "(\<not> check_person self \<longrightarrow>
        person_match m \<and> person_match_quality m = 1
        \<and> match_quality m
            = weighted_without_person (date_score self (date_diff m))
              (amount_score self (amount_diff m)))
     \<and> (check_person self \<and> (person c = ''N/A'' \<or> person j = ''N/A'') \<longrightarrow>
        person_match m \<and> person_match_quality m = 1
        \<and> match_quality m
            = weighted_with_person (date_score self (date_diff m))
              (amount_score self (amount_diff m)) 1)
     \<and> (check_person self \<and> person c \<noteq> ''N/A'' \<and> person j \<noteq> ''N/A'' \<longrightarrow>
        (person_match m, person_match_quality m) = person_compare py (person c) (person j)
        \<and> match_quality m
            = weighted_with_person (date_score self (date_diff m))
              (amount_score self (amount_diff m)) (person_match_quality m))"
  proof (intro conjI impI)
    assume n: "\<not> check_person self"
    then show "person_match m" "person_match_quality m = 1"
      by (simp_all add: pm person_result_def)
    show "match_quality m
            = weighted_without_person (date_score self (date_diff m))
              (amount_score self (amount_diff m))"
      using q n by simp
  next
    assume n: "check_person self \<and> (person c = ''N/A'' \<or> person j = ''N/A'')"
    then have r: "person_result py self c j = (True, 1)"
      by (auto simp: person_result_def)
    show "person_match m" "person_match_quality m = 1"
      by (simp_all add: pm r)
    then show "match_quality m
            = weighted_with_person (date_score self (date_diff m))
              (amount_score self (amount_diff m)) 1"
      using q n by simp
  next
    assume n: "check_person self \<and> person c \<noteq> ''N/A'' \<and> person j \<noteq> ''N/A''"
    then have r: "person_result py self c j = person_compare py (person c) (person j)"
      by (simp add: person_result_def)
    show "(person_match m, person_match_quality m) = person_compare py (person c) (person j)"
      by (simp add: pm r)
    show "match_quality m
            = weighted_with_person (date_score self (date_diff m))
              (amount_score self (amount_diff m)) (person_match_quality m)"
      using q n by simp
  qed
qed

theorem quality_weighting_witness:
  "pair_body ascii_ops no_person_reconciler cap_aaron job_alex = Inr (Some match_aaron_off)
   \<and> \<not> check_person no_person_reconciler
   \<and> match_quality match_aaron_off
       = weighted_without_person (date_score no_person_reconciler (date_diff match_aaron_off))
              (amount_score no_person_reconciler (amount_diff match_aaron_off))
   \<and> pair_body ascii_ops default_reconciler cap_aaron job_na = Inr (Some match_aaron_na)
   \<and> check_person default_reconciler \<and> person job_na = ''N/A''
   \<and> match_quality match_aaron_na
       = weighted_with_person (date_score default_reconciler (date_diff match_aaron_na))
              (amount_score default_reconciler (amount_diff match_aaron_na)) 1
   \<and> pair_body ascii_ops default_reconciler cap_aaron job_aaron = Inr (Some match_aaron_partial)
   \<and> person cap_aaron \<noteq> ''N/A'' \<and> person job_aaron \<noteq> ''N/A''
   \<and> (person_match match_aaron_partial, person_match_quality match_aaron_partial)
       = person_compare ascii_ops (person cap_aaron) (person job_aaron)
   \<and> match_quality match_aaron_partial
       = weighted_with_person (date_score default_reconciler (date_diff match_aaron_partial))
              (amount_score default_reconciler (amount_diff match_aaron_partial)) (person_match_quality match_aaron_partial)"
proof -
  have p1: "pair_body ascii_ops no_person_reconciler cap_aaron job_alex = Inr (Some match_aaron_off)"
    by (rule ex_pair_off)
  have n1: "\<not> check_person no_person_reconciler" by (simp add: no_person_reconciler_def)
  have p2: "pair_body ascii_ops default_reconciler cap_aaron job_na = Inr (Some match_aaron_na)"
    by (rule ex_pair_on)
  have n2: "check_person default_reconciler" by (simp add: default_reconciler_def)
  have n2': "person job_na = ''N/A''" by (simp add: job_na_def)
  have p3: "pair_body ascii_ops default_reconciler cap_aaron job_aaron = Inr (Some match_aaron_partial)"
    by (rule ex_pair_on)
  have n3: "person cap_aaron \<noteq> ''N/A''" "person job_aaron \<noteq> ''N/A''"
    by (simp_all add: cap_aaron_def job_aaron_def)
  have q1: "match_quality match_aaron_off
       = weighted_without_person (date_score no_person_reconciler (date_diff match_aaron_off))
              (amount_score no_person_reconciler (amount_diff match_aaron_off))"
    using quality_weighting [where py = ascii_ops and self = no_person_reconciler and c = cap_aaron
        and j = job_alex and m = match_aaron_off] p1 n1
    by blast
  have q2: "match_quality match_aaron_na
       = weighted_with_person (date_score default_reconciler (date_diff match_aaron_na))
              (amount_score default_reconciler (amount_diff match_aaron_na)) 1"
    using quality_weighting [where py = ascii_ops and self = default_reconciler and c = cap_aaron
        and j = job_na and m = match_aaron_na] p2 n2 n2'
    by blast
  have q3: "(person_match match_aaron_partial, person_match_quality match_aaron_partial)
       = person_compare ascii_ops (person cap_aaron) (person job_aaron)"
    "match_quality match_aaron_partial
       = weighted_with_person (date_score default_reconciler (date_diff match_aaron_partial))
              (amount_score default_reconciler (amount_diff match_aaron_partial)) (person_match_quality match_aaron_partial)"
    using quality_weighting [where py = ascii_ops and self = default_reconciler and c = cap_aaron
        and j = job_aaron and m = match_aaron_partial] p3 n2 n3
    by blast+
  show ?thesis by (intro conjI p1 n1 q1 p2 n2 n2' q2 p3 n3 q3)
qed

text \<open>
  The claim C2 itself fails. With the person check on and the expense's person
  \<open>N/A\<close>, the match of 100.00 on day 0 with 100.00 on day 1 has quality 0.9, which
  is the 0.2/0.4/0.4 weighting with the default person quality, not 0.85, the value of
  \<open>0.3 * date_score + 0.7 * amount_score\<close>. And a card transaction whose person is
  \<open>Unknown\<close> is compared with the expense's person: within tolerance of an expense
  entered by Alex Masuda, it is dropped as a mismatch.
\<close>

theorem quality_weighting_counterexample:
  "check_person default_reconciler \<and> person job_na = ''N/A''
   \<and> find_matches ascii_ops default_reconciler [cap_aaron] [job_na]
       = Inr ([match_aaron_na], {0}, {2})
   \<and> date_diff match_aaron_na = 1 \<and> amount_diff match_aaron_na = 0
   \<and> match_quality match_aaron_na = fl 0.9
   \<and> weighted_without_person (date_score default_reconciler 1) (amount_score default_reconciler 0)
       = fl 0.85
   \<and> fl 0.9 \<noteq> fl 0.85
   \<and> person cap_unknown = ''Unknown''
   \<and> \<bar>date cap_unknown - date job_alex\<bar> \<le> tolerance_days default_reconciler
   \<and> \<bar>fsub (amount cap_unknown) (amount job_alex)\<bar> \<le> tolerance_amount default_reconciler
   \<and> person_result ascii_ops default_reconciler cap_unknown job_alex = (False, 0)
   \<and> find_matches ascii_ops default_reconciler [cap_unknown] [job_alex] = Inr ([], {}, {})"
proof -
  have a: "check_person default_reconciler \<and> person job_na = ''N/A''
   \<and> date_diff match_aaron_na = 1 \<and> amount_diff match_aaron_na = 0
   \<and> match_quality match_aaron_na = fl 0.9
   \<and> person cap_unknown = ''Unknown''"
    by (simp add: default_reconciler_def job_na_def match_aaron_na_def cap_unknown_def)
  have b: "weighted_without_person (date_score default_reconciler 1)
       (amount_score default_reconciler 0) = fl 0.85"
    by code_simp
  have c: "\<bar>date cap_unknown - date job_alex\<bar> \<le> tolerance_days default_reconciler
   \<and> \<bar>fsub (amount cap_unknown) (amount job_alex)\<bar> \<le> tolerance_amount default_reconciler
   \<and> person_result ascii_ops default_reconciler cap_unknown job_alex = (False, 0)"
    by code_simp
  show ?thesis using a b c ex_find_on(3,4) ex_quality_values(7) by blast
qed

text \<open>
  C3. The claim: scoring under a zero tolerance is total, the score being 1.0 at zero
  difference. The code divides by the tolerance without a guard: with
  \<open>tolerance_days = 0\<close> (a value the settings slider offers) or
  \<open>tolerance_amount = 0\<close> the scorer raises \<open>ZeroDivisionError\<close> for every
  difference, and \<open>find_matches\<close> raises on the first pair of rows within tolerance.
\<close>

theorem zero_tolerance_raises:
  "calculate_match_quality (self\<lparr>tolerance_days := 0\<rparr>) ddiff adiff pmq = Inl ZeroDivisionError
   \<and> calculate_match_quality (self\<lparr>tolerance_amount := 0\<rparr>) ddiff adiff pmq = Inl ZeroDivisionError
   \<and> find_matches ascii_ops \<lparr>tolerance_amount = 2.0, tolerance_days = 0, check_person = True\<rparr>
         [\<lparr>idx = 0, date = 0, amount = 100, description = ''fuel'',
           person = ''Antonio'', card_no = ''2984''\<rparr>]
         [\<lparr>idx = 0, date = 0, amount = 100, description = ''fuel'',
           person = ''Antonio'', card_no = ''N/A''\<rparr>]
       = Inl ZeroDivisionError"
proof (intro conjI)
  show "calculate_match_quality (self\<lparr>tolerance_days := 0\<rparr>) ddiff adiff pmq = Inl ZeroDivisionError"
    by (simp add: calculate_match_quality_def int_truediv_def)
  show "calculate_match_quality (self\<lparr>tolerance_amount := 0\<rparr>) ddiff adiff pmq = Inl ZeroDivisionError"
    by (simp add: calculate_match_quality_def int_truediv_def float_truediv_def
        split: sum.splits)
  show "find_matches ascii_ops \<lparr>tolerance_amount = 2.0, tolerance_days = 0, check_person = True\<rparr>
         [\<lparr>idx = 0, date = 0, amount = 100, description = ''fuel'',
           person = ''Antonio'', card_no = ''2984''\<rparr>]
         [\<lparr>idx = 0, date = 0, amount = 100, description = ''fuel'',
           person = ''Antonio'', card_no = ''N/A''\<rparr>]
       = Inl ZeroDivisionError"
    by code_simp
qed

text \<open>
  C4. For row lists with unique index labels, a result of \<open>find_matches\<close> partitions
  the rows: no index label occurs in two matches, a CapitalOne row is reported as
  \<open>MISSING_IN_JOBBER\<close> exactly when its label is in no match (and a Jobber row as
  \<open>MISSING_IN_CAPITALONE\<close> likewise), the matched labels are labels of input rows, and
  the number of matches plus the number of unmatched rows is the number of rows, on
  each side.
\<close>

theorem reconciliation_partition:
  assumes "distinct (map idx caps)" "distinct (map idx jobs)"
    and "find_matches py self caps jobs = Inr (fm, uc, uj)"
  shows "distinct (map cap_idx fm) \<and> distinct (map job_idx fm)
       \<and> (\<forall>r\<in>set caps. (idx r \<in> cap_idx ` set fm) \<noteq> (r \<in> set (unmatched caps uc)))
       \<and> (\<forall>r\<in>set jobs. (idx r \<in> job_idx ` set fm) \<noteq> (r \<in> set (unmatched jobs uj)))
       \<and> cap_idx ` set fm \<subseteq> idx ` set caps \<and> job_idx ` set fm \<subseteq> idx ` set jobs
       \<and> length fm + length (unmatched caps uc) = length caps
       \<and> length fm + length (unmatched jobs uj) = length jobs
       \<and> length (generate_report_df caps jobs fm uc uj) + length fm = length caps + length jobs"
proof -
  have a: "assign (candidates py self caps jobs) = (fm, uc, uj)"
    using find_matches_Inr [OF assms(3)] by simp
  have uc: "uc = cap_idx ` set fm" and uj: "uj = job_idx ` set fm"
    and dc: "distinct (map cap_idx fm)" and dj: "distinct (map job_idx fm)"
    using assign_inv [OF a] by simp_all
  have sub_c: "cap_idx ` set fm \<subseteq> idx ` set caps"
  proof
    fix i assume "i \<in> cap_idx ` set fm"
    then obtain m where m: "m \<in> set fm" "i = cap_idx m" by auto
    from final_matches_origin [OF assms(3) m(1)] obtain c j
      where "c \<in> set caps" "pair_body py self c j = Inr (Some m)" by blast
    then show "i \<in> idx ` set caps" using m(2) pair_body_Some by force
  qed
  have sub_j: "job_idx ` set fm \<subseteq> idx ` set jobs"
  proof
    fix i assume "i \<in> job_idx ` set fm"
    then obtain m where m: "m \<in> set fm" "i = job_idx m" by auto
    from final_matches_origin [OF assms(3) m(1)] obtain c j
      where "j \<in> set jobs" "pair_body py self c j = Inr (Some m)" by blast
    then show "i \<in> idx ` set jobs" using m(2) pair_body_Some by force
  qed
  have lc: "length fm = card uc"
    using dc distinct_card [of "map cap_idx fm"] by (simp add: uc)
  have lj: "length fm = card uj"
    using dj distinct_card [of "map job_idx fm"] by (simp add: uj)
  have nc: "length fm + length (unmatched caps uc) = length caps"
    using length_unmatched [OF assms(1), of uc] sub_c by (simp add: lc uc)
  have nj: "length fm + length (unmatched jobs uj) = length jobs"
    using length_unmatched [OF assms(2), of uj] sub_j by (simp add: lj uj)
  have pc: "\<forall>r\<in>set caps. (idx r \<in> cap_idx ` set fm) \<noteq> (r \<in> set (unmatched caps uc))"
    by (simp add: unmatched_def uc)
  have pj: "\<forall>r\<in>set jobs. (idx r \<in> job_idx ` set fm) \<noteq> (r \<in> set (unmatched jobs uj))"
    by (simp add: unmatched_def uj)
  have rep: "length (generate_report_df caps jobs fm uc uj) + length fm = length caps + length jobs"
    using nc nj by (simp add: generate_report_df_def)
  show ?thesis using dc dj pc pj sub_c sub_j nc nj rep by blast
qed

theorem reconciliation_partition_witness:
  "distinct (map idx [cap_aaron, cap_alex]) \<and> distinct (map idx [job_alex])
   \<and> find_matches ascii_ops no_person_reconciler [cap_aaron, cap_alex] [job_alex]
       = Inr ([match_alex_off], {1}, {0})
   \<and> unmatched [cap_aaron, cap_alex] {1} = [cap_aaron] \<and> unmatched [job_alex] {0} = []
   \<and> length [match_alex_off] + length (unmatched [cap_aaron, cap_alex] {1})
       = length [cap_aaron, cap_alex]"
proof -
  have d1: "distinct (map idx [cap_aaron, cap_alex])"
    by (simp add: cap_aaron_def cap_alex_def)
  have d2: "distinct (map idx [job_alex])" by simp
  have f: "find_matches ascii_ops no_person_reconciler [cap_aaron, cap_alex] [job_alex]
       = Inr ([match_alex_off], {1}, {0})" by (rule ex_find_off_full)
  have u1: "unmatched [cap_aaron, cap_alex] {1} = [cap_aaron]"
    by (simp add: unmatched_def cap_aaron_def cap_alex_def)
  have u2: "unmatched [job_alex] {0} = []"
    by (simp add: unmatched_def job_alex_def)
  have t: "length [match_alex_off] + length (unmatched [cap_aaron, cap_alex] {1})
       = length [cap_aaron, cap_alex]"
    using reconciliation_partition [OF d1 d2 f] by (elim conjE)
  show ?thesis by (intro conjI d1 d2 f u1 u2 t)
qed

text \<open>
  C5. Tolerance containment: a pair of rows yields a candidate only if its date
  difference and its amount difference are within the tolerances; the differences
  recorded in the candidate are those of the pair (the amount difference being the
  rounded difference of the two amounts); and every candidate of the nested
  loops and every match of the final result is within the tolerances.
\<close>

theorem tolerance_containment:
  "(pair_body py self c j = Inr (Some m) \<longrightarrow>
      \<bar>date c - date j\<bar> \<le> tolerance_days self \<and> \<bar>fsub (amount c) (amount j)\<bar> \<le> tolerance_amount self
      \<and> date_diff m = \<bar>date c - date j\<bar> \<and> amount_diff m = \<bar>fsub (amount c) (amount j)\<bar>)
   \<and> (cap_loop py self caps jobs [] = Inr cs \<longrightarrow>
        (\<forall>m\<in>set cs. date_diff m \<le> tolerance_days self \<and> amount_diff m \<le> tolerance_amount self))
   \<and> (find_matches py self caps jobs = Inr (fm, uc, uj) \<longrightarrow>
        (\<forall>m\<in>set fm. date_diff m \<le> tolerance_days self \<and> amount_diff m \<le> tolerance_amount self
           \<and> date_diff m = \<bar>cap_date m - job_date m\<bar>
           \<and> amount_diff m = \<bar>fsub (cap_amount m) (job_amount m)\<bar>))"
proof (intro conjI impI ballI)
  assume "pair_body py self c j = Inr (Some m)"
  from pair_body_Some [OF this]
  show "\<bar>date c - date j\<bar> \<le> tolerance_days self" "\<bar>fsub (amount c) (amount j)\<bar> \<le> tolerance_amount self"
    "date_diff m = \<bar>date c - date j\<bar>" "amount_diff m = \<bar>fsub (amount c) (amount j)\<bar>"
    by simp_all
next
  fix m assume "cap_loop py self caps jobs [] = Inr cs" "m \<in> set cs"
  then have "m \<in> set (candidates py self caps jobs)"
    using cap_loop_Inr by fastforce
  then obtain c j where "pair_body py self c j = Inr (Some m)"
    using candidates_origin by blast
  from pair_body_Some [OF this]
  show "date_diff m \<le> tolerance_days self" "amount_diff m \<le> tolerance_amount self"
    by simp_all
next
  fix m assume "find_matches py self caps jobs = Inr (fm, uc, uj)" "m \<in> set fm"
  then obtain c j where "pair_body py self c j = Inr (Some m)"
    using final_matches_origin by blast
  from pair_body_Some [OF this]
  show "date_diff m \<le> tolerance_days self" "amount_diff m \<le> tolerance_amount self"
    "date_diff m = \<bar>cap_date m - job_date m\<bar>" "amount_diff m = \<bar>fsub (cap_amount m) (job_amount m)\<bar>"
    by simp_all
qed

theorem tolerance_containment_witness:
  "find_matches ascii_ops no_person_reconciler [cap_aaron, cap_alex] [job_alex]
       = Inr ([match_alex_off], {1}, {0})
   \<and> date_diff match_alex_off \<le> tolerance_days no_person_reconciler
   \<and> amount_diff match_alex_off \<le> tolerance_amount no_person_reconciler
   \<and> pair_body ascii_ops no_person_reconciler cap_alex job_alex = Inr (Some match_alex_off)
   \<and> \<bar>date cap_alex - date job_alex\<bar> \<le> tolerance_days no_person_reconciler
   \<and> \<bar>fsub (amount cap_alex) (amount job_alex)\<bar> \<le> tolerance_amount no_person_reconciler
   \<and> cap_loop ascii_ops no_person_reconciler [cap_aaron, cap_alex] [job_alex] []
       = Inr [match_aaron_off, match_alex_off]
   \<and> date_diff match_aaron_off \<le> tolerance_days no_person_reconciler
   \<and> amount_diff match_aaron_off \<le> tolerance_amount no_person_reconciler"
proof -
  have f: "find_matches ascii_ops no_person_reconciler [cap_aaron, cap_alex] [job_alex]
       = Inr ([match_alex_off], {1}, {0})" by (rule ex_find_off_full)
  have p: "pair_body ascii_ops no_person_reconciler cap_alex job_alex = Inr (Some match_alex_off)"
    by (rule ex_pair_off)
  have l: "cap_loop ascii_ops no_person_reconciler [cap_aaron, cap_alex] [job_alex] []
       = Inr [match_aaron_off, match_alex_off]" by (rule ex_loop_off)
  note t = tolerance_containment [where py = ascii_ops and self = no_person_reconciler
        and c = cap_alex and j = job_alex and m = match_alex_off
        and caps = "[cap_aaron, cap_alex]" and jobs = "[job_alex]"
        and cs = "[match_aaron_off, match_alex_off]"
        and fm = "[match_alex_off]" and uc = "{1}" and uj = "{0}"]
  have t1: "\<bar>date cap_alex - date job_alex\<bar> \<le> tolerance_days no_person_reconciler"
    "\<bar>fsub (amount cap_alex) (amount job_alex)\<bar> \<le> tolerance_amount no_person_reconciler"
    using t p by blast+
  have t2: "date_diff match_aaron_off \<le> tolerance_days no_person_reconciler"
    "amount_diff match_aaron_off \<le> tolerance_amount no_person_reconciler"
    using t l by simp_all
  have t3: "date_diff match_alex_off \<le> tolerance_days no_person_reconciler"
    "amount_diff match_alex_off \<le> tolerance_amount no_person_reconciler"
    using t f by simp_all
  show ?thesis by (intro conjI f p l t1 t2 t3)
qed

text \<open>
  C6. The assignment step of \<open>find_matches\<close> (the sort of line 239 and the pass of
  lines 242 to 250) equals the reference algorithm \<open>spec_resolve\<close> on every candidate
  list: the candidates are sorted stably by descending quality (the sorted list is a
  permutation, descending in quality, and keeps the candidates of each quality in
  their order of generation), the sorted list is traversed once, and a candidate is
  accepted exactly when neither of its ids is consumed, both ids then being marked
  and the candidate added at the end of the matches. Whenever the nested loops return
  a candidate list, \<open>find_matches\<close> returns the reference result on it; and for rows
  listed by ascending index label the order of generation is source id ascending,
  then target id ascending.
\<close>

theorem assignment_refines_reference:
  "assign cs = spec_resolve cs
   \<and> mset (py_sort_reverse match_quality cs) = mset cs
   \<and> sorted_wrt (\<lambda>a b. match_quality b \<le> match_quality a) (py_sort_reverse match_quality cs)
   \<and> filter (\<lambda>c. match_quality c = q) (py_sort_reverse match_quality cs)
       = filter (\<lambda>c. match_quality c = q) cs
   \<and> (cap_loop py self caps jobs [] = Inr gen \<longrightarrow>
        find_matches py self caps jobs = Inr (spec_resolve gen))
   \<and> (sorted_wrt (<) (map idx caps) \<and> sorted_wrt (<) (map idx jobs)
        \<and> cap_loop py self caps jobs [] = Inr gen \<longrightarrow> sorted_wrt generation_order gen)"
proof (intro conjI impI)
  show "assign cs = spec_resolve cs" by (rule assign_spec_resolve)
  show "mset (py_sort_reverse match_quality cs) = mset cs" by (rule mset_py_sort_reverse)
  show "sorted_wrt (\<lambda>a b. match_quality b \<le> match_quality a) (py_sort_reverse match_quality cs)"
    by (rule py_sort_reverse_descending)
  show "filter (\<lambda>c. match_quality c = q) (py_sort_reverse match_quality cs)
       = filter (\<lambda>c. match_quality c = q) cs"
    by (rule py_sort_reverse_stable)
next
  assume "cap_loop py self caps jobs [] = Inr gen"
  then show "find_matches py self caps jobs = Inr (spec_resolve gen)"
    by (simp add: find_matches_def assign_spec_resolve)
next
  assume h: "sorted_wrt (<) (map idx caps) \<and> sorted_wrt (<) (map idx jobs)
        \<and> cap_loop py self caps jobs [] = Inr gen"
  then have "gen = candidates py self caps jobs"
    using cap_loop_Inr [of py self caps jobs "[]" gen] by simp
  then show "sorted_wrt generation_order gen"
    using h candidates_sorted by simp
qed

theorem assignment_refines_reference_witness:
  "sorted_wrt (<) (map idx [cap_aaron, cap_alex])
   \<and> sorted_wrt (<) (map idx [job_alex, job_aaron, job_na])
   \<and> cap_loop ascii_ops default_reconciler [cap_aaron, cap_alex] [job_alex, job_aaron, job_na] []
       = Inr [match_aaron_partial, match_aaron_na, match_alex_on, match_alex_na]
   \<and> sorted_wrt generation_order [match_aaron_partial, match_aaron_na, match_alex_on, match_alex_na]
   \<and> match_quality match_aaron_na = match_quality match_alex_on
   \<and> find_matches ascii_ops default_reconciler [cap_aaron, cap_alex] [job_alex, job_aaron, job_na]
       = Inr (spec_resolve [match_aaron_partial, match_aaron_na, match_alex_on, match_alex_na])
   \<and> spec_resolve [match_aaron_partial, match_aaron_na, match_alex_on, match_alex_na]
       = ([match_aaron_partial, match_alex_on], {1, 0}, {0, 1})"
proof -
  have s1: "sorted_wrt (<) (map idx [cap_aaron, cap_alex])"
    by (simp add: cap_aaron_def cap_alex_def)
  have s2: "sorted_wrt (<) (map idx [job_alex, job_aaron, job_na])"
    by (simp add: job_alex_def job_aaron_def job_na_def)
  have l: "cap_loop ascii_ops default_reconciler [cap_aaron, cap_alex] [job_alex, job_aaron, job_na] []
       = Inr [match_aaron_partial, match_aaron_na, match_alex_on, match_alex_na]"
    by (rule ex_loop_on)
  have tie: "match_quality match_aaron_na = match_quality match_alex_on"
    by (simp add: match_aaron_na_def match_alex_on_def)
  have r: "spec_resolve [match_aaron_partial, match_aaron_na, match_alex_on, match_alex_na]
       = ([match_aaron_partial, match_alex_on], {1, 0}, {0, 1})"
    unfolding assign_spec_resolve [symmetric] by (rule ex_assign)
  note t = assignment_refines_reference [where py = ascii_ops and self = default_reconciler
      and caps = "[cap_aaron, cap_alex]" and jobs = "[job_alex, job_aaron, job_na]"
      and gen = "[match_aaron_partial, match_aaron_na, match_alex_on, match_alex_na]"]
  have g: "sorted_wrt generation_order
      [match_aaron_partial, match_aaron_na, match_alex_on, match_alex_na]"
    using t s1 s2 l by blast
  have f: "find_matches ascii_ops default_reconciler [cap_aaron, cap_alex] [job_alex, job_aaron, job_na]
       = Inr (spec_resolve [match_aaron_partial, match_aaron_na, match_alex_on, match_alex_na])"
    using t l by blast
  show ?thesis by (intro conjI s1 s2 l g tie f r)
qed

text \<open>
  C7, as the code has it. The comparison is made on the two names with leading and
  trailing whitespace stripped: its quality is 1.0 when the stripped names are equal
  ignoring case, else 0.8 when one stripped name occurs inside the other ignoring
  case, else 0.0; and \<open>person_match\<close> is false exactly in the last case. For the same
  date and amount, with the names \<open>Aaron Davidson\<close> and \<open>Aaron\<close> and the person check
  on, the person quality is 0.8 and the match quality is the binary64 value of
  \<open>1.0 * 0.2 + 1.0 * 0.4 + 0.8 * 0.4\<close>, which is 0.9200000000000002: within
  \<open>10 ^ -15\<close> of 0.92.
\<close>

theorem person_compare_value:
  "snd (person_compare py a b)
     = spec_identity_score (str_lower py) (str_strip py a) (str_strip py b)
   \<and> fst (person_compare py a b) = (snd (person_compare py a b) \<noteq> 0)
   \<and> person_compare ascii_ops ''Aaron Davidson'' ''Aaron'' = (True, fl 0.8)
   \<and> person_compare ascii_ops ''ANTONIO'' '' antonio '' = (True, 1)
   \<and> person_compare ascii_ops ''Jerry Morales'' ''Alex Masuda'' = (False, 0)
   \<and> person cap_aaron = ''Aaron Davidson'' \<and> person job_aaron = ''Aaron''
   \<and> date cap_aaron = date job_aaron \<and> amount cap_aaron = amount job_aaron
   \<and> check_person default_reconciler
   \<and> find_matches ascii_ops default_reconciler [cap_aaron] [job_aaron]
       = Inr ([match_aaron_partial], {0}, {1})
   \<and> person_match_quality match_aaron_partial = fl 0.8
   \<and> match_quality match_aaron_partial = weighted_with_person 1 1 (fl 0.8)
   \<and> match_quality match_aaron_partial = fl 0.9200000000000002
   \<and> \<bar>match_quality match_aaron_partial - 0.92\<bar> < 1 / 10 ^ 15"
proof -
  have g1: "snd (person_compare py a b)
     = spec_identity_score (str_lower py) (str_strip py a) (str_strip py b)"
    by (simp add: person_compare_def spec_identity_score_def Let_def py_in_sublist)
  have g2: "fst (person_compare py a b) = (snd (person_compare py a b) \<noteq> 0)"
    using fl_08_nonzero by (simp add: person_compare_def Let_def)
  have e1: "person_compare ascii_ops ''Aaron Davidson'' ''Aaron'' = (True, fl 0.8)"
    by code_simp
  have e2: "person_compare ascii_ops ''ANTONIO'' '' antonio '' = (True, 1)"
    by code_simp
  have e3: "person_compare ascii_ops ''Jerry Morales'' ''Alex Masuda'' = (False, 0)"
    by code_simp
  have d: "person cap_aaron = ''Aaron Davidson'' \<and> person job_aaron = ''Aaron''
   \<and> date cap_aaron = date job_aaron \<and> amount cap_aaron = amount job_aaron
   \<and> check_person default_reconciler
   \<and> person_match_quality match_aaron_partial = fl 0.8
   \<and> match_quality match_aaron_partial = fl 0.9200000000000002"
    by (simp add: cap_aaron_def job_aaron_def default_reconciler_def match_aaron_partial_def)
  have w: "weighted_with_person 1 1 (fl 0.8) = fl 0.9200000000000002"
    by code_simp
  have q: "match_quality match_aaron_partial = weighted_with_person 1 1 (fl 0.8)"
    using d w by simp
  have c: "\<bar>match_quality match_aaron_partial - 0.92\<bar> < 1 / 10 ^ 15"
    using d ex_quality_values(3) by simp
  show ?thesis using g1 g2 e1 e2 e3 d ex_find_on(2) q c by blast
qed

theorem person_compare_value_witness:
  "snd (person_compare ascii_ops ''Aaron Davidson'' ''Aaron'') = fl 0.8
   \<and> snd (person_compare ascii_ops ''ANTONIO'' '' antonio '') = 1
   \<and> snd (person_compare ascii_ops ''Jerry Morales'' ''Alex Masuda'') = 0
   \<and> fst (person_compare ascii_ops ''Aaron Davidson'' ''Aaron'')"
proof -
  have s: "spec_identity_score (str_lower ascii_ops) (str_strip ascii_ops ''Aaron Davidson'')
             (str_strip ascii_ops ''Aaron'') = fl 0.8"
    "spec_identity_score (str_lower ascii_ops) (str_strip ascii_ops ''ANTONIO'')
             (str_strip ascii_ops '' antonio '') = 1"
    "spec_identity_score (str_lower ascii_ops) (str_strip ascii_ops ''Jerry Morales'')
             (str_strip ascii_ops ''Alex Masuda'') = 0"
    by code_simp+
  note t1 = person_compare_value [where py = ascii_ops and a = "''Aaron Davidson''"
      and b = "''Aaron''"]
  note t2 = person_compare_value [where py = ascii_ops and a = "''ANTONIO''"
      and b = "'' antonio ''"]
  note t3 = person_compare_value [where py = ascii_ops and a = "''Jerry Morales''"
      and b = "''Alex Masuda''"]
  have a1: "snd (person_compare ascii_ops ''Aaron Davidson'' ''Aaron'') = fl 0.8"
    using t1 s(1) by simp
  have a2: "snd (person_compare ascii_ops ''ANTONIO'' '' antonio '') = 1"
    using t2 s(2) by simp
  have a3: "snd (person_compare ascii_ops ''Jerry Morales'' ''Alex Masuda'') = 0"
    using t3 s(3) by simp
  have a4: "fst (person_compare ascii_ops ''Aaron Davidson'' ''Aaron'')"
    using t1 a1 fl_08_nonzero by simp
  show ?thesis by (intro conjI a1 a2 a3 a4)
qed

text \<open>
  The claim C7 itself fails in two places. On the names as they are, \<open>Aaron\<close> with a
  trailing space against \<open>Aaron\<close> is not an equality of strings, so the rule of the
  claim gives 0.8 (containment), where the code, which strips first, gives 1.0. And
  the quality of the match of \<open>Aaron Davidson\<close> with \<open>Aaron\<close> is not 0.92, neither the
  decimal number nor the binary64 number nearest to it.
\<close>

theorem person_compare_counterexample:
  "snd (person_compare ascii_ops ''Aaron '' ''Aaron'') = 1
   \<and> spec_identity_score (str_lower ascii_ops) ''Aaron '' ''Aaron'' = fl 0.8
   \<and> fl 0.8 \<noteq> 1
   \<and> find_matches ascii_ops default_reconciler [cap_aaron] [job_aaron]
       = Inr ([match_aaron_partial], {0}, {1})
   \<and> match_quality match_aaron_partial \<noteq> 0.92
   \<and> match_quality match_aaron_partial \<noteq> fl 0.92"
proof -
  have a: "snd (person_compare ascii_ops ''Aaron '' ''Aaron'') = 1
   \<and> spec_identity_score (str_lower ascii_ops) ''Aaron '' ''Aaron'' = fl 0.8
   \<and> fl 0.8 \<noteq> 1"
    by code_simp
  have q: "match_quality match_aaron_partial \<noteq> 0.92"
    "match_quality match_aaron_partial \<noteq> fl 0.92"
    using ex_quality_values(1,2) by (simp_all add: match_aaron_partial_def)
  show ?thesis using a ex_find_on(2) q by blast
qed

text \<open>
  C8, as the code has it. With the person check off and both tolerances other than
  zero, a pair of rows within tolerance is a candidate whatever the two persons are,
  and its quality is \<open>date_score * 0.3 + amount_score * 0.7\<close> evaluated in binary64;
  \<open>find_matches\<close> returns, at least one of the two rows is matched, and the pair
  itself is matched when no other candidate involves either of its rows. For 100.00
  on day 0 against 101.50 on day 1, with tolerances 2.0 and 2 days, there is exactly
  one match, with date difference 1, amount difference 1.5 and quality
  0.32499999999999996: within \<open>10 ^ -15\<close> of 0.325.
\<close>

theorem identity_off_pair_matches:
  "(\<not> check_person self \<and> tolerance_days self \<noteq> 0 \<and> tolerance_amount self \<noteq> 0
      \<and> c \<in> set caps \<and> j \<in> set jobs
      \<and> \<bar>date c - date j\<bar> \<le> tolerance_days self
      \<and> \<bar>fsub (amount c) (amount j)\<bar> \<le> tolerance_amount self \<longrightarrow>
    (\<exists>m fm uc uj.
       pair_body py self c j = Inr (Some m)
       \<and> m \<in> set (candidates py self caps jobs)
       \<and> cap_idx m = idx c \<and> job_idx m = idx j
       \<and> cap_person m = person c \<and> job_person m = person j
       \<and> date_diff m = \<bar>date c - date j\<bar> \<and> amount_diff m = \<bar>fsub (amount c) (amount j)\<bar>
       \<and> match_quality m
           = weighted_without_person (date_score self (date_diff m))
               (amount_score self (amount_diff m))
       \<and> find_matches py self caps jobs = Inr (fm, uc, uj)
       \<and> (idx c \<in> uc \<or> idx j \<in> uj)
       \<and> ((\<forall>m'\<in>set (candidates py self caps jobs).
               cap_idx m' = idx c \<or> job_idx m' = idx j \<longrightarrow> m' = m) \<longrightarrow>
            m \<in> set fm)))
   \<and> person cap_aaron \<noteq> person job_alex
   \<and> find_matches ascii_ops no_person_reconciler [cap_aaron] [job_alex]
       = Inr ([match_aaron_off], {0}, {0})
   \<and> date_diff match_aaron_off = 1 \<and> amount_diff match_aaron_off = 1.5
   \<and> match_quality match_aaron_off = fl 0.32499999999999996
   \<and> \<bar>match_quality match_aaron_off - 0.325\<bar> < 1 / 10 ^ 15"
proof (intro conjI impI)
  assume h: "\<not> check_person self \<and> tolerance_days self \<noteq> 0 \<and> tolerance_amount self \<noteq> 0
      \<and> c \<in> set caps \<and> j \<in> set jobs
      \<and> \<bar>date c - date j\<bar> \<le> tolerance_days self
      \<and> \<bar>fsub (amount c) (amount j)\<bar> \<le> tolerance_amount self"
  define q where "q = weighted_without_person (date_score self \<bar>date c - date j\<bar>)
      (amount_score self \<bar>fsub (amount c) (amount j)\<bar>)"
  define m where "m = \<lparr>cap_idx = idx c, job_idx = idx j,
       cap_date = date c, job_date = date j,
       cap_amount = amount c, job_amount = amount j,
       cap_desc = description c, job_desc = description j,
       cap_person = person c, job_person = person j,
       cap_card_no = card_no c,
       date_diff = \<bar>date c - date j\<bar>, amount_diff = \<bar>fsub (amount c) (amount j)\<bar>,
       person_match = True, person_match_quality = 1,
       match_quality = q\<rparr>"
  have pb: "pair_body py self c j = Inr (Some m)"
    using h by (simp add: pair_body_def Let_def person_result_def quality_defined m_def q_def)
  have mc: "m \<in> set (candidates py self caps jobs)"
    using h pb by (intro candidates_member [of c caps j jobs]) simp_all
  obtain fm uc uj where a: "assign (candidates py self caps jobs) = (fm, uc, uj)"
    by (cases "assign (candidates py self caps jobs)") auto
  have f: "find_matches py self caps jobs = Inr (fm, uc, uj)"
    using h find_matches_total [of self py caps jobs] a by simp
  have inv: "uc = cap_idx ` set fm" "uj = job_idx ` set fm"
    "set fm \<subseteq> set (candidates py self caps jobs)"
    using assign_inv [OF a] by simp_all
  have mx: "idx c \<in> uc \<or> idx j \<in> uj"
    using assign_maximal [OF a mc] by (simp add: m_def)
  have un: "(\<forall>m'\<in>set (candidates py self caps jobs).
               cap_idx m' = idx c \<or> job_idx m' = idx j \<longrightarrow> m' = m) \<longrightarrow> m \<in> set fm"
  proof
    assume u: "\<forall>m'\<in>set (candidates py self caps jobs).
               cap_idx m' = idx c \<or> job_idx m' = idx j \<longrightarrow> m' = m"
    from mx obtain m' where m': "m' \<in> set fm" "cap_idx m' = idx c \<or> job_idx m' = idx j"
      using inv(1,2) by auto
    then have "m' = m" using u inv(3) by blast
    then show "m \<in> set fm" using m'(1) by simp
  qed
  have fields: "cap_idx m = idx c \<and> job_idx m = idx j
       \<and> cap_person m = person c \<and> job_person m = person j
       \<and> date_diff m = \<bar>date c - date j\<bar> \<and> amount_diff m = \<bar>fsub (amount c) (amount j)\<bar>
       \<and> match_quality m
           = weighted_without_person (date_score self (date_diff m))
               (amount_score self (amount_diff m))"
    by (simp add: m_def q_def)
  show "\<exists>m fm uc uj.
       pair_body py self c j = Inr (Some m)
       \<and> m \<in> set (candidates py self caps jobs)
       \<and> cap_idx m = idx c \<and> job_idx m = idx j
       \<and> cap_person m = person c \<and> job_person m = person j
       \<and> date_diff m = \<bar>date c - date j\<bar> \<and> amount_diff m = \<bar>fsub (amount c) (amount j)\<bar>
       \<and> match_quality m
           = weighted_without_person (date_score self (date_diff m))
               (amount_score self (amount_diff m))
       \<and> find_matches py self caps jobs = Inr (fm, uc, uj)
       \<and> (idx c \<in> uc \<or> idx j \<in> uj)
       \<and> ((\<forall>m'\<in>set (candidates py self caps jobs).
               cap_idx m' = idx c \<or> job_idx m' = idx j \<longrightarrow> m' = m) \<longrightarrow>
            m \<in> set fm)"
    using pb mc fields f mx un by blast
next
  show "person cap_aaron \<noteq> person job_alex"
    by (simp add: cap_aaron_def job_alex_def)
  show "find_matches ascii_ops no_person_reconciler [cap_aaron] [job_alex]
       = Inr ([match_aaron_off], {0}, {0})" by (rule ex_find_off)
  show "date_diff match_aaron_off = 1" by (simp add: match_aaron_off_def)
  show "amount_diff match_aaron_off = 1.5" by (simp add: match_aaron_off_def)
  show "match_quality match_aaron_off = fl 0.32499999999999996"
    by (simp add: match_aaron_off_def)
  show "\<bar>match_quality match_aaron_off - 0.325\<bar> < 1 / 10 ^ 15"
    using ex_quality_values(6) by (simp add: match_aaron_off_def)
qed

theorem identity_off_pair_matches_witness:
  "\<not> check_person no_person_reconciler \<and> tolerance_days no_person_reconciler \<noteq> 0
   \<and> tolerance_amount no_person_reconciler \<noteq> 0
   \<and> cap_aaron \<in> set [cap_aaron] \<and> job_alex \<in> set [job_alex]
   \<and> \<bar>date cap_aaron - date job_alex\<bar> \<le> tolerance_days no_person_reconciler
   \<and> \<bar>fsub (amount cap_aaron) (amount job_alex)\<bar> \<le> tolerance_amount no_person_reconciler
   \<and> candidates ascii_ops no_person_reconciler [cap_aaron] [job_alex] = [match_aaron_off]
   \<and> pair_body ascii_ops no_person_reconciler cap_aaron job_alex = Inr (Some match_aaron_off)
   \<and> find_matches ascii_ops no_person_reconciler [cap_aaron] [job_alex]
       = Inr ([match_aaron_off], {0}, {0})
   \<and> match_aaron_off \<in> set [match_aaron_off]
   \<and> match_quality match_aaron_off
       = weighted_without_person
           (date_score no_person_reconciler (date_diff match_aaron_off))
           (amount_score no_person_reconciler (amount_diff match_aaron_off))"
proof -
  have h: "\<not> check_person no_person_reconciler \<and> tolerance_days no_person_reconciler \<noteq> 0
   \<and> tolerance_amount no_person_reconciler \<noteq> 0
   \<and> cap_aaron \<in> set [cap_aaron] \<and> job_alex \<in> set [job_alex]
   \<and> \<bar>date cap_aaron - date job_alex\<bar> \<le> tolerance_days no_person_reconciler
   \<and> \<bar>fsub (amount cap_aaron) (amount job_alex)\<bar> \<le> tolerance_amount no_person_reconciler"
    by code_simp
  have cs: "candidates ascii_ops no_person_reconciler [cap_aaron] [job_alex] = [match_aaron_off]"
    using cap_loop_Inr [OF ex_loop_off(3)] by simp
  from identity_off_pair_matches [where py = ascii_ops and self = no_person_reconciler
      and c = cap_aaron and j = job_alex and caps = "[cap_aaron]" and jobs = "[job_alex]"] h
  obtain m fm uc uj where o:
    "pair_body ascii_ops no_person_reconciler cap_aaron job_alex = Inr (Some m)"
    "match_quality m
       = weighted_without_person (date_score no_person_reconciler (date_diff m))
           (amount_score no_person_reconciler (amount_diff m))"
    "find_matches ascii_ops no_person_reconciler [cap_aaron] [job_alex] = Inr (fm, uc, uj)"
    "(\<forall>m'\<in>set (candidates ascii_ops no_person_reconciler [cap_aaron] [job_alex]).
         cap_idx m' = idx cap_aaron \<or> job_idx m' = idx job_alex \<longrightarrow> m' = m) \<longrightarrow> m \<in> set fm"
    by blast
  have me: "m = match_aaron_off" using o(1) ex_pair_off(1) by simp
  have "m \<in> set fm" using o(4) cs me by simp
  moreover have "fm = [match_aaron_off]" using o(3) ex_find_off by simp
  ultimately have "match_aaron_off \<in> set [match_aaron_off]" using me by simp
  then show ?thesis using h cs o(1,2) me ex_find_off by blast
qed

text \<open>
  The claim C8 itself fails in two places. With \<open>tolerance_days = 0\<close> and the person
  check off, a card transaction and an expense of the same day and amount by different
  persons are within tolerance, and \<open>find_matches\<close> raises instead of matching them.
  And the quality of the one match in the example is not 0.325, neither the decimal
  number nor the binary64 number nearest to it.
\<close>

theorem identity_off_pair_matches_counterexample:
  "\<bar>date cap_aaron_other - date job_aaron\<bar> \<le> 0
   \<and> \<bar>fsub (amount cap_aaron_other) (amount job_aaron)\<bar> \<le> 2.0
   \<and> person_compare ascii_ops (person cap_aaron_other) (person job_aaron) = (False, 0)
   \<and> find_matches ascii_ops
        \<lparr>tolerance_amount = 2.0, tolerance_days = 0, check_person = False\<rparr>
        [cap_aaron_other] [job_aaron] = Inl ZeroDivisionError
   \<and> find_matches ascii_ops no_person_reconciler [cap_aaron] [job_alex]
       = Inr ([match_aaron_off], {0}, {0})
   \<and> match_quality match_aaron_off \<noteq> 0.325
   \<and> match_quality match_aaron_off \<noteq> fl 0.325"
proof -
  have a: "\<bar>date cap_aaron_other - date job_aaron\<bar> \<le> 0
   \<and> \<bar>fsub (amount cap_aaron_other) (amount job_aaron)\<bar> \<le> 2.0
   \<and> person_compare ascii_ops (person cap_aaron_other) (person job_aaron) = (False, 0)
   \<and> find_matches ascii_ops
        \<lparr>tolerance_amount = 2.0, tolerance_days = 0, check_person = False\<rparr>
        [cap_aaron_other] [job_aaron] = Inl ZeroDivisionError"
    by code_simp
  have q: "match_quality match_aaron_off \<noteq> 0.325"
    "match_quality match_aaron_off \<noteq> fl 0.325"
    using ex_quality_values(4,5) by (simp_all add: match_aaron_off_def)
  show ?thesis using a ex_find_off q by blast
qed

text \<open>
  C9, as the code has it. The resolver \<open>get_person_name\<close> gives \<open>Unknown\<close> for a
  missing card number. Any other card number is first turned into text: a string is
  its own text; a number is converted to binary64 and truncated to an integer, whose
  decimal digits are the text. So an integer of magnitude below \<open>2 ^ 53\<close> gives its
  own digits, a float gives the digits of its integer part, a larger integer gives the
  digits of the nearest binary64 integer, and an infinite float or an integer beyond
  the binary64 range raises \<open>OverflowError\<close>. A text that is in \<open>card_to_person\<close>
  gives the mapped name; any other text gives \<open>Unknown Card\<close> followed by the text,
  which differs from \<open>Unknown\<close> and determines the text.
\<close>

theorem get_person_name_cases:
  "get_person_name Missing = Inr ''Unknown''
   \<and> get_person_name (StrTok s)
       = Inr (case map_of card_to_person s of
                Some name \<Rightarrow> name | None \<Rightarrow> ''Unknown Card '' @ s)
   \<and> (\<bar>n\<bar> < 2 ^ 53 \<longrightarrow>
        get_person_name (IntTok n)
          = Inr (case map_of card_to_person (str_int n) of
                   Some name \<Rightarrow> name | None \<Rightarrow> ''Unknown Card '' @ str_int n))
   \<and> (\<not> overflows (fl (of_int n)) \<longrightarrow>
        get_person_name (IntTok n)
          = Inr (case map_of card_to_person (str_int (py_trunc (fl (of_int n)))) of
                   Some name \<Rightarrow> name
                 | None \<Rightarrow> ''Unknown Card '' @ str_int (py_trunc (fl (of_int n)))))
   \<and> (overflows (fl (of_int n)) \<longrightarrow> get_person_name (IntTok n) = Inl OverflowError)
   \<and> get_person_name (FloatTok q)
       = Inr (case map_of card_to_person (str_int (py_trunc q)) of
                Some name \<Rightarrow> name | None \<Rightarrow> ''Unknown Card '' @ str_int (py_trunc q))
   \<and> get_person_name InfTok = Inl OverflowError
   \<and> dec_value (str_int k) = Some k
   \<and> ''Unknown Card '' @ t \<noteq> ''Unknown''
   \<and> (''Unknown Card '' @ t = ''Unknown Card '' @ t' \<longrightarrow> t = t')
   \<and> get_person_name (IntTok 9265) = Inr ''Aaron Davidson''
   \<and> get_person_name (FloatTok 4298) = Inr ''Alex Masuda''
   \<and> get_person_name (StrTok ''1725'') = Inr ''Jericho Taylor-Daves''
   \<and> get_person_name (IntTok 3253) = Inr ''Jerry Morales''
   \<and> get_person_name (FloatTok 2984) = Inr ''Antonio''
   \<and> get_person_name (IntTok 1234) = Inr ''Unknown Card 1234''
   \<and> get_person_name (FloatTok 9265.5) = Inr ''Aaron Davidson''
   \<and> get_person_name (StrTok ''9265.0'') = Inr ''Unknown Card 9265.0''"
proof -
  have a: "get_person_name Missing = Inr ''Unknown''"
    by (simp add: get_person_name_def)
  have b: "get_person_name (StrTok s)
       = Inr (case map_of card_to_person s of
                Some name \<Rightarrow> name | None \<Rightarrow> ''Unknown Card '' @ s)"
    by (simp add: get_person_name_def)
  have c: "\<bar>n\<bar> < 2 ^ 53 \<longrightarrow>
        get_person_name (IntTok n)
          = Inr (case map_of card_to_person (str_int n) of
                   Some name \<Rightarrow> name | None \<Rightarrow> ''Unknown Card '' @ str_int n)"
    using card_str_small [of n] by (simp add: get_person_name_def)
  have d: "\<not> overflows (fl (of_int n)) \<longrightarrow>
        get_person_name (IntTok n)
          = Inr (case map_of card_to_person (str_int (py_trunc (fl (of_int n)))) of
                   Some name \<Rightarrow> name
                 | None \<Rightarrow> ''Unknown Card '' @ str_int (py_trunc (fl (of_int n))))"
    by (simp add: get_person_name_def float_of_int_def)
  have e: "overflows (fl (of_int n)) \<longrightarrow> get_person_name (IntTok n) = Inl OverflowError"
    by (simp add: get_person_name_def float_of_int_def)
  have f: "get_person_name (FloatTok q)
       = Inr (case map_of card_to_person (str_int (py_trunc q)) of
                Some name \<Rightarrow> name | None \<Rightarrow> ''Unknown Card '' @ str_int (py_trunc q))"
    by (simp add: get_person_name_def)
  have g: "get_person_name InfTok = Inl OverflowError"
    by (simp add: get_person_name_def)
  have h: "dec_value (str_int k) = Some k" by (rule dec_value_str_int)
  have i: "''Unknown Card '' @ t \<noteq> ''Unknown''"
    "''Unknown Card '' @ t = ''Unknown Card '' @ t' \<longrightarrow> t = t'"
    by simp_all
  have x: "get_person_name (IntTok 9265) = Inr ''Aaron Davidson''
   \<and> get_person_name (FloatTok 4298) = Inr ''Alex Masuda''
   \<and> get_person_name (StrTok ''1725'') = Inr ''Jericho Taylor-Daves''
   \<and> get_person_name (IntTok 3253) = Inr ''Jerry Morales''
   \<and> get_person_name (FloatTok 2984) = Inr ''Antonio''
   \<and> get_person_name (IntTok 1234) = Inr ''Unknown Card 1234''
   \<and> get_person_name (FloatTok 9265.5) = Inr ''Aaron Davidson''
   \<and> get_person_name (StrTok ''9265.0'') = Inr ''Unknown Card 9265.0''"
    by code_simp
  show ?thesis using a b c d e f g h i x by blast
qed

theorem get_person_name_cases_witness:
  "\<bar>9265 :: int\<bar> < 2 ^ 53 \<and> get_person_name (IntTok 9265) = Inr ''Aaron Davidson''
   \<and> \<not> overflows (fl (of_int 9007199254740993))
   \<and> get_person_name (IntTok 9007199254740993) = Inr ''Unknown Card 9007199254740992''
   \<and> dec_value ''9007199254740992'' = Some 9007199254740992"
proof -
  have s: "\<bar>9265 :: int\<bar> < 2 ^ 53" by simp
  have m: "map_of card_to_person (str_int 9265) = Some ''Aaron Davidson''"
    by code_simp
  have a: "get_person_name (IntTok 9265) = Inr ''Aaron Davidson''"
    using get_person_name_cases [where n = 9265] s m by simp
  have o: "\<not> overflows (fl (of_int 9007199254740993))" by code_simp
  have t: "str_int (py_trunc (fl (of_int 9007199254740993))) = ''9007199254740992''"
    by code_simp
  have u: "map_of card_to_person ''9007199254740992'' = None"
    by (simp add: card_to_person_def)
  have b: "get_person_name (IntTok 9007199254740993) = Inr ''Unknown Card 9007199254740992''"
    using get_person_name_cases [where n = 9007199254740993] o t u by simp
  have v: "str_int 9007199254740992 = ''9007199254740992''" by code_simp
  have c: "dec_value ''9007199254740992'' = Some 9007199254740992"
    using get_person_name_cases [where k = 9007199254740992] v by simp
  show ?thesis by (intro conjI s a o b c)
qed

text \<open>
  The claim C9 itself fails for numbers. The integer card number 9007199254740993 is
  not in the map, and the name returned for it carries 9007199254740992, not the
  number itself; and for an infinite float the resolver raises instead of returning.
\<close>

theorem get_person_name_counterexample:
  "map_of card_to_person (str_int 9007199254740993) = None
   \<and> str_int 9007199254740993 = ''9007199254740993''
   \<and> get_person_name (IntTok 9007199254740993) = Inr ''Unknown Card 9007199254740992''
   \<and> get_person_name (IntTok 9007199254740993) \<noteq> Inr (''Unknown Card '' @ ''9007199254740993'')
   \<and> get_person_name InfTok = Inl OverflowError"
  by code_simp

text \<open>
  C10. With the person check off, the outcome of \<open>find_matches\<close> does not depend on
  the person fields of the rows (\<open>person\<close> and \<open>card_no\<close>). For two runs on row
  lists that agree once these fields are forgotten: both raise or both return; the
  candidate lists agree up to the person fields they copy; the final matches agree up
  to these fields, in the same order and with the same qualities; the used index sets
  are equal; and the reports of \<open>generate_report_df\<close> agree up to the person fields.
\<close>

theorem person_fields_ignored:
  "\<not> check_person self \<and> map forget_person caps = map forget_person caps'
     \<and> map forget_person jobs = map forget_person jobs' \<longrightarrow>
   forget_result (find_matches py self caps jobs) = forget_result (find_matches py self caps' jobs')
   \<and> map_sum id (map forget_persons) (cap_loop py self caps jobs [])
       = map_sum id (map forget_persons) (cap_loop py self caps' jobs' [])
   \<and> (find_matches py self caps jobs = Inr (fm, uc, uj)
        \<and> find_matches py self caps' jobs' = Inr (fm', uc', uj') \<longrightarrow>
       map forget_persons fm = map forget_persons fm' \<and> uc = uc' \<and> uj = uj'
       \<and> map match_quality fm = map match_quality fm'
       \<and> map forget_row (generate_report_df caps jobs fm uc uj)
           = map forget_row (generate_report_df caps' jobs' fm' uc' uj'))"
proof (intro impI)
  assume h: "\<not> check_person self \<and> map forget_person caps = map forget_person caps'
     \<and> map forget_person jobs = map forget_person jobs'"
  then have n: "\<not> check_person self" by simp
  have r: "forget_result (find_matches py self caps jobs)
      = forget_result (find_matches py self caps' jobs')"
    using find_matches_forget [OF n, of py caps jobs]
      find_matches_forget [OF n, of py caps' jobs'] h
    by simp
  have c: "map_sum id (map forget_persons) (cap_loop py self caps jobs [])
       = map_sum id (map forget_persons) (cap_loop py self caps' jobs' [])"
    using cap_loop_forget_nil [OF n, of py caps jobs]
      cap_loop_forget_nil [OF n, of py caps' jobs'] h
    by simp
  have s: "find_matches py self caps jobs = Inr (fm, uc, uj)
        \<and> find_matches py self caps' jobs' = Inr (fm', uc', uj') \<longrightarrow>
       map forget_persons fm = map forget_persons fm' \<and> uc = uc' \<and> uj = uj'
       \<and> map match_quality fm = map match_quality fm'
       \<and> map forget_row (generate_report_df caps jobs fm uc uj)
           = map forget_row (generate_report_df caps' jobs' fm' uc' uj')"
  proof
    assume f: "find_matches py self caps jobs = Inr (fm, uc, uj)
        \<and> find_matches py self caps' jobs' = Inr (fm', uc', uj')"
    then have e: "map forget_persons fm = map forget_persons fm'" "uc = uc'" "uj = uj'"
      using r by (simp_all add: forget_result_def)
    have "map match_quality (map forget_persons fm) = map match_quality (map forget_persons fm')"
      using e(1) by simp
    then have q: "map match_quality fm = map match_quality fm'"
      by (simp add: comp_def)
    have rep: "map forget_row (generate_report_df caps jobs fm uc uj)
           = map forget_row (generate_report_df caps' jobs' fm' uc' uj')"
      using e h by (simp add: report_forget)
    show "map forget_persons fm = map forget_persons fm' \<and> uc = uc' \<and> uj = uj'
       \<and> map match_quality fm = map match_quality fm'
       \<and> map forget_row (generate_report_df caps jobs fm uc uj)
           = map forget_row (generate_report_df caps' jobs' fm' uc' uj')"
      by (intro conjI e q rep)
  qed
  show "forget_result (find_matches py self caps jobs) = forget_result (find_matches py self caps' jobs')
   \<and> map_sum id (map forget_persons) (cap_loop py self caps jobs [])
       = map_sum id (map forget_persons) (cap_loop py self caps' jobs' [])
   \<and> (find_matches py self caps jobs = Inr (fm, uc, uj)
        \<and> find_matches py self caps' jobs' = Inr (fm', uc', uj') \<longrightarrow>
       map forget_persons fm = map forget_persons fm' \<and> uc = uc' \<and> uj = uj'
       \<and> map match_quality fm = map match_quality fm'
       \<and> map forget_row (generate_report_df caps jobs fm uc uj)
           = map forget_row (generate_report_df caps' jobs' fm' uc' uj'))"
    using r c s by blast
qed

theorem person_fields_ignored_witness:
  "\<not> check_person no_person_reconciler
   \<and> map forget_person [cap_aaron, cap_alex] = map forget_person [cap_aaron_other, cap_alex]
   \<and> map forget_person [job_alex] = map forget_person [job_alex]
   \<and> person cap_aaron \<noteq> person cap_aaron_other
   \<and> find_matches ascii_ops no_person_reconciler [cap_aaron, cap_alex] [job_alex]
       = Inr ([match_alex_off], {1}, {0})
   \<and> find_matches ascii_ops no_person_reconciler [cap_aaron_other, cap_alex] [job_alex]
       = Inr ([match_alex_off], {1}, {0})
   \<and> map forget_row (generate_report_df [cap_aaron, cap_alex] [job_alex] [match_alex_off] {1} {0})
       = map forget_row
           (generate_report_df [cap_aaron_other, cap_alex] [job_alex] [match_alex_off] {1} {0})"
proof -
  have h: "\<not> check_person no_person_reconciler
   \<and> map forget_person [cap_aaron, cap_alex] = map forget_person [cap_aaron_other, cap_alex]
   \<and> map forget_person [job_alex] = map forget_person [job_alex]"
    by (simp add: no_person_reconciler_def forget_person_def cap_aaron_def cap_aaron_other_def)
  have p: "person cap_aaron \<noteq> person cap_aaron_other"
    by (simp add: cap_aaron_def cap_aaron_other_def)
  have f1: "find_matches ascii_ops no_person_reconciler [cap_aaron, cap_alex] [job_alex]
       = Inr ([match_alex_off], {1}, {0})" by (rule ex_find_off_full)
  have f2: "find_matches ascii_ops no_person_reconciler [cap_aaron_other, cap_alex] [job_alex]
       = Inr ([match_alex_off], {1}, {0})" by (rule ex_find_off_full)
  have rep: "map forget_row (generate_report_df [cap_aaron, cap_alex] [job_alex] [match_alex_off] {1} {0})
       = map forget_row
           (generate_report_df [cap_aaron_other, cap_alex] [job_alex] [match_alex_off] {1} {0})"
    using person_fields_ignored [where py = ascii_ops and self = no_person_reconciler
        and caps = "[cap_aaron, cap_alex]" and caps' = "[cap_aaron_other, cap_alex]"
        and jobs = "[job_alex]" and jobs' = "[job_alex]"
        and fm = "[match_alex_off]" and uc = "{1}" and uj = "{0}"
        and fm' = "[match_alex_off]" and uc' = "{1}" and uj' = "{0}"] h f1 f2
    by blast
  show ?thesis using h p f1 f2 rep by blast
qed

end
